theory Spec2Isabelle
  imports Complex_Main
begin

section \<open>The MACSima reader: data model\<close>

text \<open>
  A shallow embedding of \<^verbatim>\<open>src/spatialdata_io/readers/macsima.py\<close>.

  Python strings are \<open>string\<close> (one \<open>char\<close> per code point, code points below 256),
  \<open>None\<close> is \<open>None\<close>, a raised exception is \<open>Inl\<close> of an \<open>error\<close> that names the
  exception class and the line that raises it. Python floats (the physical pixel sizes)
  are modelled by exact rationals. Leading underscores of Python names are dropped.
  The \<^verbatim>\<open>assert\<close> statements are executed (the interpreter runs without \<open>-O\<close>), and
  \<open>int\<close> of a run of digits is its decimal value, however long the run.
\<close>

datatype error =
    ValueError_no_files                 \<comment> \<open>line 60\<close>
  | IndexError                          \<comment> \<open>\<open>experiments[0]\<close>, \<open>images[0]\<close>, \<open>roi[0]\<close>, \<open>imgs[0]\<close>\<close>
  | AssertionError_annotations          \<comment> \<open>line 122\<close>
  | AssertionError_cycle                \<comment> \<open>line 129\<close>
  | AttributeError_channel_names        \<comment> \<open>line 134\<close>
  | AssertionError_channel_names        \<comment> \<open>line 135\<close>
  | ValueError_channel_names            \<comment> \<open>line 138\<close>
  | AssertionError_screens              \<comment> \<open>line 143\<close>
  | AssertionError_reagents             \<comment> \<open>line 147\<close>
  | AssertionError_roi                  \<comment> \<open>line 69\<close>
  | AttributeError_group                \<comment> \<open>line 79: \<open>None.group()\<close>\<close>
  | ValueError_unpack                   \<comment> \<open>lines 80 and 83: not enough values to unpack\<close>
  | ValueError_empty_after_subsetting   \<comment> \<open>line 89\<close>
  | NotImplementedError_units_differ    \<comment> \<open>line 158\<close>
  | NotImplementedError_sizes_differ    \<comment> \<open>line 161\<close>
  | NotImplementedError_unit_unknown    \<comment> \<open>line 169\<close>
  | TypeError                           \<comment> \<open>\<open>None / 1000\<close>, \<open>float(None)\<close>, \<open>re.sub\<close> on \<open>None\<close>\<close>
  | AssertionError_physical_size        \<comment> \<open>line 95\<close>
  | AssertionError_dims                 \<comment> \<open>line 96\<close>
  | ValueError_stack                    \<comment> \<open>line 98: planes of different shapes\<close>
  | ValueError_parse                    \<comment> \<open>line 102: the array is not three-dimensional\<close>

text \<open>
  \<open>MacsimaKeys\<close> lives in \<^verbatim>\<open>spatialdata_io._constants._constants\<close>, which is not
  among the sources: the four annotation keys are a parameter \<open>vx\<close> of every function
  that reads them. (\<open>CHANNEL_NAMES\<close>, \<open>SCREENS\<close> and \<open>REAGENTS\<close> name attributes, which
  are record fields here; \<open>IMAGE_OMETIF\<close> is the file suffix of the directory listing.)
\<close>

record MacsimaKeys =
  CYCLE :: string
  SCANTYPE :: string
  ROI_ID :: string
  ROI_ID_deprecated :: string

text \<open>
  Some members of \<open>ome_types.model.UnitsLength\<close>; the reader tells \<open>NANOMETER\<close> and
  \<open>MICROMETER\<close> from each other and from the rest (lines 163 to 169).
\<close>

datatype UnitsLength =
    NANOMETER | MICROMETER | MILLIMETER | CENTIMETER | METER | INCH | PIXEL | REFERENCEFRAME

record Pixels =
  physical_size_x :: "rat option"
  physical_size_y :: "rat option"
  physical_size_x_unit :: UnitsLength
  physical_size_y_unit :: UnitsLength

record Image =
  pixels :: Pixels

record Experiment =
  description :: "string option"

record Reagent =
  reagent_name :: "string option"   \<comment> \<open>the attribute \<open>name\<close>\<close>

record Screen =
  reagents :: "Reagent list option"   \<comment> \<open>\<open>None\<close>: the attribute is absent\<close>

text \<open>
  A structured annotation is represented by its \<open>value\<close>, a mapping whose lookup gives
  \<open>None\<close> for a key it does not hold (line 119 compares the lookup with \<open>None\<close>).
\<close>

record OME =
  experiments :: "Experiment list"
  structured_annotations :: "(string \<rightharpoonup> string) list"
  screens :: "Screen list option"     \<comment> \<open>\<open>None\<close>: \<open>hasattr\<close> is false\<close>
  images :: "Image list"

text \<open>
  A decoded file. \<open>dims_order\<close> is \<open>img.dims.order\<close>; \<open>data_shape\<close> is the shape of
  \<open>img.get_image_dask_data()\<close>, all that the reader's own code depends on.
\<close>

record BioImage =
  ome_metadata :: OME
  channel_names :: "string list option"   \<comment> \<open>\<open>None\<close>: \<open>getattr\<close> takes its default\<close>
  dims_order :: string
  data_shape :: "nat list"

text \<open>The list returned by \<open>_get_metadata\<close> (line 150), by position.\<close>

record metadata =
  md_cycle :: string
  md_scantype :: "string option"
  md_channel_name :: string
  md_roi_id :: "string option"
  md_reagents :: "string option"

datatype transformation = Scale "rat list" "string list" | Identity

text \<open>
  The result: the container holds one image, \<open>image_name\<close>, whose model has the stacked
  array, \<open>dims\<close>, \<open>c_coords\<close> and one transformation under \<open>to_coordinate_system\<close>.
\<close>

record SpatialData =
  image_name :: string
  array_shape :: "nat list"
  dims :: "string list"
  c_coords :: "string list"
  to_coordinate_system :: string
  transformation :: transformation

section \<open>Metadata extraction\<close>

text \<open>A list comprehension whose body may raise: the first exception ends it.\<close>

fun collect :: "('a \<Rightarrow> error + 'b) \<Rightarrow> 'a list \<Rightarrow> error + 'b list" where
  "collect f [] = Inr []"
| "collect f (x # xs) =
     (case f x of
        Inl e \<Rightarrow> Inl e
      | Inr y \<Rightarrow> (case collect f xs of Inl e \<Rightarrow> Inl e | Inr ys \<Rightarrow> Inr (y # ys)))"

text \<open>\<open>_get_structured_annotations\<close>, lines 117 to 123.\<close>

definition get_structured_annotations :: "BioImage \<Rightarrow> string \<Rightarrow> error + string option" where
  "get_structured_annotations img metadata_key =
     (case List.map_filter (\<lambda>item. item metadata_key) (structured_annotations (ome_metadata img)) of
        [] \<Rightarrow> Inr None
      | v # vs \<Rightarrow>
          if list_all (\<lambda>x. x = v) (v # vs) then Inr (Some v)
          else Inl AssertionError_annotations)"

text \<open>Python's truth value of a \<open>str | None\<close>: \<open>None\<close> and the empty string are false.\<close>

fun truthy :: "string option \<Rightarrow> bool" where
  "truthy None = False"
| "truthy (Some s) = (s \<noteq> [])"

text \<open>Lines 127 to 129: the cycle must be found.\<close>

definition get_cycle :: "MacsimaKeys \<Rightarrow> BioImage \<Rightarrow> error + string" where
  "get_cycle vx img =
     (case get_structured_annotations img (CYCLE vx) of
        Inl e \<Rightarrow> Inl e
      | Inr None \<Rightarrow> Inl AssertionError_cycle
      | Inr (Some c) \<Rightarrow> Inr c)"

text \<open>Lines 132 to 138: the channel name.\<close>

definition get_channel_name :: "BioImage \<Rightarrow> error + string" where
  "get_channel_name img =
     (case channel_names img of
        None \<Rightarrow> Inl AttributeError_channel_names
      | Some channel_name \<Rightarrow>
          (case channel_name of
             [c] \<Rightarrow> if c = [] then Inl ValueError_channel_names else Inr c
           | _ \<Rightarrow> Inl AssertionError_channel_names))"

text \<open>
  Lines 140 to 148: the reagent. An empty \<open>reagents\<close> list is returned as it is
  (line 146 is false for it); it is false in line 76, as \<open>None\<close> is, and nothing else
  reads it, so both are \<open>None\<close> here.
\<close>

definition get_reagents :: "BioImage \<Rightarrow> error + string option" where
  "get_reagents img =
     (case screens (ome_metadata img) of
        None \<Rightarrow> Inr None
      | Some scs \<Rightarrow>
          (case scs of
             [sc] \<Rightarrow>
               (case reagents sc of
                  None \<Rightarrow> Inr None
                | Some [] \<Rightarrow> Inr None
                | Some [r] \<Rightarrow> Inr (reagent_name r)
                | Some _ \<Rightarrow> Inl AssertionError_reagents)
           | _ \<Rightarrow> Inl AssertionError_screens))"

text \<open>Line 149: \<open>a or b\<close> evaluates \<open>b\<close> only when \<open>a\<close> is false, and is \<open>b\<close> then.\<close>

definition get_roi_id :: "MacsimaKeys \<Rightarrow> BioImage \<Rightarrow> error + string option" where
  "get_roi_id vx img =
     (case get_structured_annotations img (ROI_ID vx) of
        Inl e \<Rightarrow> Inl e
      | Inr a \<Rightarrow>
          if truthy a then Inr a
          else get_structured_annotations img (ROI_ID_deprecated vx))"

text \<open>\<open>_get_metadata\<close>, lines 126 to 150, in the order of its statements.\<close>

definition get_metadata :: "MacsimaKeys \<Rightarrow> BioImage \<Rightarrow> error + metadata" where
  "get_metadata vx img =
     (case get_cycle vx img of
        Inl e \<Rightarrow> Inl e
      | Inr cycle \<Rightarrow>
     (case get_structured_annotations img (SCANTYPE vx) of
        Inl e \<Rightarrow> Inl e
      | Inr scantype \<Rightarrow>
     (case get_channel_name img of
        Inl e \<Rightarrow> Inl e
      | Inr channel_name \<Rightarrow>
     (case get_reagents img of
        Inl e \<Rightarrow> Inl e
      | Inr reagent \<Rightarrow>
     (case get_roi_id vx img of
        Inl e \<Rightarrow> Inl e
      | Inr roi_id \<Rightarrow>
          Inr \<lparr>md_cycle = cycle, md_scantype = scantype, md_channel_name = channel_name,
               md_roi_id = roi_id, md_reagents = reagent\<rparr>)))))"

section \<open>Physical size and name cleaning\<close>

text \<open>\<open>_parse_physical_size\<close>, lines 153 to 170.\<close>

definition parse_physical_size :: "Pixels \<Rightarrow> error + rat" where
  "parse_physical_size px =
     (if physical_size_x_unit px \<noteq> physical_size_y_unit px then
        Inl NotImplementedError_units_differ
      else if physical_size_x px \<noteq> physical_size_y px then
        Inl NotImplementedError_sizes_differ
      else if physical_size_x_unit px = NANOMETER then
        (case physical_size_x px of None \<Rightarrow> Inl TypeError | Some x \<Rightarrow> Inr (x / 1000))
      else if physical_size_x_unit px = MICROMETER then
        (case physical_size_x px of None \<Rightarrow> Inl TypeError | Some x \<Rightarrow> Inr x)
      else Inl NotImplementedError_unit_unknown)"

text \<open>The character class \<open>[a-zA-Z0-9_]\<close> of line 174.\<close>

definition word_char :: "char \<Rightarrow> bool" where
  "word_char c =
     (let n = (of_char c :: nat) in
      (97 \<le> n \<and> n \<le> 122) \<or> (65 \<le> n \<and> n \<le> 90) \<or> (48 \<le> n \<and> n \<le> 57) \<or> n = 95)"

text \<open>\<open>_clean_string\<close>, lines 172 to 175: \<open>re.sub\<close> replaces each matching character.\<close>

definition clean_string :: "string \<Rightarrow> string" where
  "clean_string input_string = map (\<lambda>c. if word_char c then c else CHR ''_'') input_string"

section \<open>The reader\<close>

text \<open>
  Line 76: the name of an image joins with \<open>_\<close> the parts of its metadata list that are
  true, in the order of the list.
\<close>

definition name_parts :: "metadata \<Rightarrow> string option list" where
  "name_parts md =
     [Some (md_cycle md), md_scantype md, Some (md_channel_name md), md_roi_id md,
      md_reagents md]"

fun true_parts :: "string option list \<Rightarrow> string list" where
  "true_parts [] = []"
| "true_parts (None # ps) = true_parts ps"
| "true_parts (Some s # ps) = (if s = [] then true_parts ps else s # true_parts ps)"

text \<open>\<open>sep.join(parts)\<close>.\<close>

fun join :: "string \<Rightarrow> string list \<Rightarrow> string" where
  "join sep [] = []"
| "join sep [s] = s"
| "join sep (s # t # ss) = s @ sep @ join sep (t # ss)"

definition derived_name :: "metadata \<Rightarrow> string" where
  "derived_name md = join ''_'' (true_parts (name_parts md))"

text \<open>
  Lines 77 to 79: \<open>number_pattern.match(s)\<close> is the longest run of digits that starts
  \<open>s\<close>, or \<open>None\<close> when \<open>s\<close> does not start with a digit; \<open>int\<close> reads it in base ten.
  Among the code points below 256, \<open>\d\<close> matches \<open>0\<close> to \<open>9\<close> only.
\<close>

definition digit :: "char \<Rightarrow> bool" where
  "digit c = (48 \<le> (of_char c :: nat) \<and> (of_char c :: nat) \<le> 57)"

definition number_pattern_match :: "string \<Rightarrow> string option" where
  "number_pattern_match s = (case takeWhile digit s of [] \<Rightarrow> None | d # ds \<Rightarrow> Some (d # ds))"

definition int_of_digits :: "string \<Rightarrow> int" where
  "int_of_digits ds = foldl (\<lambda>n c. 10 * n + (int (of_char c) - 48)) 0 ds"

text \<open>The integer value of the leading run of digits of a name.\<close>

definition cycle_number :: "string \<Rightarrow> int" where
  "cycle_number s = int_of_digits (takeWhile digit s)"

type_synonym triple = "string \<times> string \<times> BioImage"

definition cycle_key :: "triple \<Rightarrow> error + int" where
  "cycle_key x =
     (case number_pattern_match (fst x) of
        None \<Rightarrow> Inl AttributeError_group
      | Some ds \<Rightarrow> Inr (int_of_digits ds))"

text \<open>
  Lines 79 and 80. \<open>sorted\<close> computes the key of every element first, in order, then
  sorts stably by the keys. The three sequences \<open>names\<close>, \<open>c_coords\<close> and \<open>imgs\<close> that
  line 80 unzips stay zipped here.
\<close>

definition sort_by_cycle :: "triple list \<Rightarrow> error + triple list" where
  "sort_by_cycle combined =
     (case collect cycle_key combined of
        Inl e \<Rightarrow> Inl e
      | Inr keys \<Rightarrow>
          (case map snd (sort_key fst (zip keys combined)) of
             [] \<Rightarrow> Inl ValueError_unpack
           | x # xs \<Rightarrow> Inr (x # xs)))"

text \<open>
  Lines 82 to 89. When the comprehension of line 83 keeps nothing, \<open>zip(*[])\<close> is empty
  and the assignment to three names raises.
\<close>

definition subset_channels :: "string list option \<Rightarrow> triple list \<Rightarrow> error + triple list" where
  "subset_channels c_subset sorted_triples =
     (case
        (case c_subset of
           None \<Rightarrow> Inr sorted_triples
         | Some [] \<Rightarrow> Inr sorted_triples
         | Some (c # cs) \<Rightarrow>
             (case filter (\<lambda>(elem1, elem2, elem3). List.member (c # cs) elem2) sorted_triples of
                [] \<Rightarrow> Inl ValueError_unpack
              | k # ks \<Rightarrow> Inr (k # ks)))
      of
        Inl e \<Rightarrow> Inl e
      | Inr kept \<Rightarrow>
          if map (\<lambda>(elem1, elem2, elem3). elem2) kept = [] then
            Inl ValueError_empty_after_subsetting
          else Inr kept)"

text \<open>The test of lines 82 to 86 on one triple: true of every triple without a list.\<close>

definition in_c_subset :: "string list option \<Rightarrow> triple \<Rightarrow> bool" where
  "in_c_subset c_subset x =
     (case c_subset of
        None \<Rightarrow> True
      | Some [] \<Rightarrow> True
      | Some (c # cs) \<Rightarrow> List.member (c # cs) (fst (snd x)))"

text \<open>
  Lines 66 to 74: the coordinate system and the image name, from the image name of line
  63 (\<open>name0\<close>) and the list \<open>roi\<close>. An f-string writes \<open>None\<close> as the word.
\<close>

fun format_str :: "string option \<Rightarrow> string" where
  "format_str None = ''None''"
| "format_str (Some s) = s"

definition roi_names :: "string option \<Rightarrow> string option list \<Rightarrow> error + string \<times> string option" where
  "roi_names name0 roi =
     (case roi of
        [] \<Rightarrow> Inl IndexError
      | None # _ \<Rightarrow> Inr (''global'', name0)
      | Some roi_id # _ \<Rightarrow>
          if list_all (\<lambda>x. x = Some roi_id) roi then
            Inr (''global_'' @ roi_id, Some (format_str name0 @ ''_'' @ roi_id))
          else Inl AssertionError_roi)"

text \<open>Lines 58 to 89: from the decoded files to the sorted, subsetted triples.\<close>

definition macsima_select ::
  "MacsimaKeys \<Rightarrow> string list option \<Rightarrow> BioImage list
     \<Rightarrow> error + (string \<times> string option) \<times> triple list" where
  "macsima_select vx c_subset imgs =
     (case imgs of
        [] \<Rightarrow> Inl ValueError_no_files
      | img0 # _ \<Rightarrow>
     (case experiments (ome_metadata img0) of
        [] \<Rightarrow> Inl IndexError
      | experiment0 # _ \<Rightarrow>
     (case collect (get_metadata vx) imgs of
        Inl e \<Rightarrow> Inl e
      | Inr metadata \<Rightarrow>
     (case roi_names (description experiment0) (map md_roi_id metadata) of
        Inl e \<Rightarrow> Inl e
      | Inr naming \<Rightarrow>
     (case sort_by_cycle
             (zip (map derived_name metadata) (zip (map md_channel_name metadata) imgs)) of
        Inl e \<Rightarrow> Inl e
      | Inr combined_sorted \<Rightarrow>
     (case subset_channels c_subset combined_sorted of
        Inl e \<Rightarrow> Inl e
      | Inr selected \<Rightarrow> Inr (naming, selected)))))))"

text \<open>Lines 92 to 95: the physical size of the first image, and the same of every image.\<close>

definition physical_size_of :: "BioImage \<Rightarrow> error + rat" where
  "physical_size_of img =
     (case images (ome_metadata img) of
        [] \<Rightarrow> Inl IndexError
      | image0 # _ \<Rightarrow> parse_physical_size (pixels image0))"

definition same_physical_size :: "rat \<Rightarrow> BioImage \<Rightarrow> error + unit" where
  "same_physical_size pixels_to_microns img =
     (case physical_size_of img of
        Inl e \<Rightarrow> Inl e
      | Inr p \<Rightarrow> if pixels_to_microns = p then Inr () else Inl AssertionError_physical_size)"

definition check_physical_sizes :: "BioImage list \<Rightarrow> error + rat" where
  "check_physical_sizes imgs =
     (case imgs of
        [] \<Rightarrow> Inl IndexError
      | img0 # _ \<Rightarrow>
          (case physical_size_of img0 of
             Inl e \<Rightarrow> Inl e
           | Inr pixels_to_microns \<Rightarrow>
               (case collect (same_physical_size pixels_to_microns) imgs of
                  Inl e \<Rightarrow> Inl e
                | Inr _ \<Rightarrow> Inr pixels_to_microns)))"

text \<open>
  Lines 97 to 108, on shapes: \<open>squeeze\<close> drops the axes of length one, \<open>da.stack\<close> takes
  arrays of one shape and puts the new axis first, and the image model is given three
  dimension names, so it takes an array of three dimensions.
\<close>

definition squeeze :: "nat list \<Rightarrow> nat list" where
  "squeeze shape = filter (\<lambda>n. n \<noteq> 1) shape"

definition stack :: "nat list list \<Rightarrow> error + nat list" where
  "stack arrays =
     (case arrays of
        [] \<Rightarrow> Inl ValueError_stack
      | a # rest \<Rightarrow>
          if list_all (\<lambda>b. b = a) rest then Inr (length arrays # a) else Inl ValueError_stack)"

text \<open>Lines 91 to 114.\<close>

definition macsima_assemble ::
  "bool \<Rightarrow> (string \<times> string option) \<times> triple list \<Rightarrow> error + SpatialData" where
  "macsima_assemble transformations st =
     (let to_cs = fst (fst st); name_opt = snd (fst st); names = map fst (snd st);
          imgs = map (\<lambda>(elem1, elem2, elem3). elem3) (snd st) in
      case check_physical_sizes imgs of
        Inl e \<Rightarrow> Inl e
      | Inr pixels_to_microns \<Rightarrow>
     (case imgs of
        [] \<Rightarrow> Inl IndexError
      | img0 # _ \<Rightarrow>
          if dims_order img0 \<noteq> ''TCZYX'' then Inl AssertionError_dims
          else
     (case stack (map (\<lambda>img. squeeze (data_shape img)) imgs) of
        Inl e \<Rightarrow> Inl e
      | Inr array \<Rightarrow>
          if length array \<noteq> 3 then Inl ValueError_parse
          else
     (case name_opt of
        None \<Rightarrow> Inl TypeError
      | Some name \<Rightarrow>
          Inr \<lparr>image_name = clean_string name,
               array_shape = array,
               dims = [''c'', ''y'', ''x''],
               c_coords = names,
               to_coordinate_system = to_cs,
               transformation =
                 (if transformations then
                    Scale [pixels_to_microns, pixels_to_microns] [''x'', ''y'']
                  else Identity)\<rparr>))))"

text \<open>
  \<open>macsima\<close>, lines 25 to 114, on the list of the decoded files of the directory (line
  61), with the two keyword bags empty.
\<close>

definition macsima ::
  "MacsimaKeys \<Rightarrow> string list option \<Rightarrow> bool \<Rightarrow> BioImage list \<Rightarrow> error + SpatialData" where
  "macsima vx c_subset transformations imgs =
     (case macsima_select vx c_subset imgs of
        Inl e \<Rightarrow> Inl e
      | Inr st \<Rightarrow> macsima_assemble transformations st)"

section \<open>Example inputs\<close>

definition example_keys :: MacsimaKeys where
  "example_keys =
     \<lparr>CYCLE = ''Cycle'', SCANTYPE = ''ScanType'', ROI_ID = ''ROI ID'',
      ROI_ID_deprecated = ''ROI''\<rparr>"

definition example_pixels :: "rat \<Rightarrow> UnitsLength \<Rightarrow> Pixels" where
  "example_pixels magnitude u =
     \<lparr>physical_size_x = Some magnitude, physical_size_y = Some magnitude,
      physical_size_x_unit = u, physical_size_y_unit = u\<rparr>"

text \<open>
  A file of experiment \<open>Exp #1\<close> with one annotation that holds the cycle and, when
  given, a region of interest; one channel; one screen without reagents; a single plane
  of 4 by 4.
\<close>

definition example_image ::
  "string \<Rightarrow> string \<Rightarrow> string option \<Rightarrow> Pixels \<Rightarrow> string \<Rightarrow> BioImage" where
  "example_image cycle channel roi px order =
     \<lparr>ome_metadata =
        \<lparr>experiments = [\<lparr>description = Some ''Exp #1''\<rparr>],
         structured_annotations =
           [(case roi of
               None \<Rightarrow> [''Cycle'' \<mapsto> cycle]
             | Some r \<Rightarrow> [''Cycle'' \<mapsto> cycle, ''ROI ID'' \<mapsto> r])],
         screens = Some [\<lparr>reagents = Some []\<rparr>],
         images = [\<lparr>pixels = px\<rparr>]\<rparr>,
      channel_names = Some [channel],
      dims_order = order,
      data_shape = [1, 1, 1, 4, 4]\<rparr>"

section \<open>Auxiliary facts\<close>

lemma collect_Inr_iff:
  "collect f xs = Inr ys \<longleftrightarrow> list_all2 (\<lambda>x y. f x = Inr y) xs ys"
proof (induction xs arbitrary: ys)
  case Nil
  show ?case by auto
next
  case (Cons x xs)
  show ?case
  proof (cases ys)
    case Nil
    then show ?thesis by (simp split: sum.splits)
  next
    case (Cons y ys')
    show ?thesis
    proof (cases "f x")
      case (Inl e)
      then show ?thesis by (simp add: Cons)
    next
      case (Inr y')
      then show ?thesis
        by (cases "collect f xs") (auto simp: Cons Cons.IH[symmetric])
    qed
  qed
qed

lemma collect_Inl:
  "x \<in> set xs \<Longrightarrow> f x = Inl e \<Longrightarrow> \<exists>e'. collect f xs = Inl e'"
  by (induction xs) (auto split: sum.splits)

lemma collect_map:
  assumes "collect f xs = Inr ys" and "\<And>x y. f x = Inr y \<Longrightarrow> y = g x"
  shows "ys = map g xs"
  using assms(1)
proof (induction xs arbitrary: ys)
  case Nil
  then show ?case by simp
next
  case (Cons x xs)
  then show ?case by (auto split: sum.splits dest: assms(2))
qed

lemma cycle_key_Inr:
  "cycle_key x = Inr k \<longleftrightarrow> number_pattern_match (fst x) \<noteq> None \<and> k = cycle_number (fst x)"
  by (auto simp: cycle_key_def number_pattern_match_def cycle_number_def split: list.splits option.splits)

lemma snd_insort_key_fst:
  "\<forall>p\<in>set ps. fst p = f (snd p) \<Longrightarrow>
     map snd (insort_key fst (f x, x) ps) = insort_key f x (map snd ps)"
  by (induction ps) auto

lemma zip_map_fst_snd: "p \<in> set (zip (map f xs) xs) \<Longrightarrow> fst p = f (snd p)"
  by (auto simp: set_zip)

lemma sort_decorated:
  "map snd (sort_key fst (zip (map f xs) xs)) = sort_key f xs"
proof (induction xs)
  case Nil
  show ?case by simp
next
  case (Cons x xs)
  have "\<forall>p\<in>set (sort_key fst (zip (map f xs) xs)). fst p = f (snd p)"
    by (auto dest: zip_map_fst_snd)
  then show ?case
    using Cons.IH by (simp add: snd_insort_key_fst)
qed

lemma sort_by_cycle_Inr:
  assumes "sort_by_cycle combined = Inr s"
  shows "s = sort_key (\<lambda>x. cycle_number (fst x)) combined
         \<and> combined \<noteq> [] \<and> list_all (\<lambda>x. number_pattern_match (fst x) \<noteq> None) combined"
proof -
  from assms obtain keys where k: "collect cycle_key combined = Inr keys"
    and s: "s = map snd (sort_key fst (zip keys combined))" and ne: "s \<noteq> []"
    by (auto simp: sort_by_cycle_def split: sum.splits list.splits)
  from k have keys: "keys = map (\<lambda>x. cycle_number (fst x)) combined"
    by (rule collect_map) (simp add: cycle_key_Inr)
  from k have "list_all2 (\<lambda>x y. cycle_key x = Inr y) combined keys"
    by (simp add: collect_Inr_iff)
  then have "list_all (\<lambda>x. number_pattern_match (fst x) \<noteq> None) combined"
    by (induction rule: list_all2_induct) (auto simp: cycle_key_Inr)
  moreover have "s = sort_key (\<lambda>x. cycle_number (fst x)) combined"
    unfolding s keys by (rule sort_decorated)
  moreover from this ne have "combined \<noteq> []" by auto
  ultimately show ?thesis by simp
qed

lemma sort_by_cycle_Inl:
  assumes "x \<in> set combined" and "number_pattern_match (fst x) = None"
  shows "\<exists>e. sort_by_cycle combined = Inl e"
proof -
  have "cycle_key x = Inl AttributeError_group"
    using assms(2) by (simp add: cycle_key_def)
  with assms(1) have "\<exists>e. collect cycle_key combined = Inl e"
    by (rule collect_Inl)
  then show ?thesis by (auto simp: sort_by_cycle_def)
qed

lemma subset_channels_Inr:
  assumes "subset_channels c_subset s = Inr sel"
  shows "sel = filter (in_c_subset c_subset) s \<and> sel \<noteq> []"
proof -
  have all: "filter (in_c_subset None) s = s" "filter (in_c_subset (Some [])) s = s"
    by (simp_all add: in_c_subset_def)
  show ?thesis
  proof (cases c_subset)
    case None
    with assms show ?thesis 
      by (simp add: subset_channels_def all split: if_splits)
  next
    case (Some cs)
    show ?thesis
    proof (cases cs)
      case Nil
      with assms Some show ?thesis
        by (simp add: subset_channels_def all split: if_splits)
    next
      case (Cons c cs')
      have "in_c_subset (Some (c # cs')) = (\<lambda>(elem1, elem2, elem3). elem2 = c \<or> elem2 \<in> set cs')"
        by (auto simp: in_c_subset_def)
      with assms Some Cons show ?thesis
        by (auto simp: subset_channels_def split: list.splits if_splits)
    qed
  qed
qed

lemma combined_consistent:
  assumes "list_all2 (\<lambda>i md. get_metadata vx i = Inr md) imgs mds"
    and "x \<in> set (zip (map derived_name mds) (zip (map md_channel_name mds) imgs))"
  shows "\<exists>md. snd (snd x) \<in> set imgs \<and> md \<in> set mds \<and> get_metadata vx (snd (snd x)) = Inr md
            \<and> fst x = derived_name md \<and> fst (snd x) = md_channel_name md"
  using assms
proof (induction arbitrary: x rule: list_all2_induct)
  case Nil
  then show ?case by simp
next
  case (Cons i rest md mds')
  from Cons.prems have "x = (derived_name md, md_channel_name md, i)
      \<or> x \<in> set (zip (map derived_name mds') (zip (map md_channel_name mds') rest))"
    by simp
  then show ?case
  proof
    assume "x = (derived_name md, md_channel_name md, i)"
    with Cons.hyps(1) show ?thesis by auto
  next
    assume "x \<in> set (zip (map derived_name mds') (zip (map md_channel_name mds') rest))"
    from Cons.IH[OF this] show ?thesis by auto
  qed
qed

lemma macsima_select_Inr:
  assumes "macsima_select vx c_subset imgs = Inr (naming, selected)"
  shows "\<exists>img0 rest ex0 exs mds.
           imgs = img0 # rest \<and> experiments (ome_metadata img0) = ex0 # exs
         \<and> collect (get_metadata vx) imgs = Inr mds
         \<and> roi_names (description ex0) (map md_roi_id mds) = Inr naming
         \<and> list_all (\<lambda>x. number_pattern_match (fst x) \<noteq> None)
              (zip (map derived_name mds) (zip (map md_channel_name mds) imgs))
         \<and> selected = filter (in_c_subset c_subset)
              (sort_key (\<lambda>x. cycle_number (fst x))
                 (zip (map derived_name mds) (zip (map md_channel_name mds) imgs)))
         \<and> selected \<noteq> []"
proof -
  from assms obtain img0 rest where imgs: "imgs = img0 # rest"
    by (cases imgs) (auto simp: macsima_select_def)
  from assms imgs obtain ex0 exs where ex: "experiments (ome_metadata img0) = ex0 # exs"
    by (cases "experiments (ome_metadata img0)") (auto simp: macsima_select_def)
  from assms imgs ex obtain mds where mds: "collect (get_metadata vx) imgs = Inr mds"
    by (cases "collect (get_metadata vx) imgs") (auto simp: macsima_select_def)
  from assms imgs ex mds have roi: "roi_names (description ex0) (map md_roi_id mds) = Inr naming"
    and "\<exists>s. sort_by_cycle (zip (map derived_name mds) (zip (map md_channel_name mds) imgs)) = Inr s
            \<and> subset_channels c_subset s = Inr selected"
    unfolding macsima_select_def by (auto split: sum.splits)
  then obtain s where s: "sort_by_cycle (zip (map derived_name mds) (zip (map md_channel_name mds) imgs)) = Inr s"
    and sel: "subset_channels c_subset s = Inr selected"
    by blast
  from sort_by_cycle_Inr[OF s] have A: "s = sort_key (\<lambda>x. cycle_number (fst x))
        (zip (map derived_name mds) (zip (map md_channel_name mds) imgs))"
    and B: "list_all (\<lambda>x. number_pattern_match (fst x) \<noteq> None)
        (zip (map derived_name mds) (zip (map md_channel_name mds) imgs))"
    by blast+
  from subset_channels_Inr[OF sel] have C: "selected = filter (in_c_subset c_subset) s"
    and D: "selected \<noteq> []"
    by blast+
  show ?thesis
    using imgs ex mds roi B C[unfolded A] D by blast
qed

lemma selected_consistent:
  assumes "macsima_select vx c_subset imgs = Inr (naming, selected)"
    and "x \<in> set selected"
  shows "\<exists>md. snd (snd x) \<in> set imgs \<and> get_metadata vx (snd (snd x)) = Inr md
            \<and> fst x = derived_name md \<and> fst (snd x) = md_channel_name md"
proof -
  from macsima_select_Inr[OF assms(1)] obtain mds where
    mds: "collect (get_metadata vx) imgs = Inr mds"
    and sel: "selected = filter (in_c_subset c_subset)
              (sort_key (\<lambda>x. cycle_number (fst x))
                 (zip (map derived_name mds) (zip (map md_channel_name mds) imgs)))"
    by blast
  from sel assms(2) have "x \<in> set (zip (map derived_name mds) (zip (map md_channel_name mds) imgs))"
    by simp
  with mds show ?thesis
    using combined_consistent[of vx imgs mds x] by (auto simp: collect_Inr_iff)
qed

lemma check_physical_sizes_Inr:
  assumes "check_physical_sizes imgs = Inr p" and "i \<in> set imgs"
  shows "physical_size_of i = Inr p"
proof -
  from assms(1) obtain us where "collect (same_physical_size p) imgs = Inr us"
    by (auto simp: check_physical_sizes_def split: list.splits sum.splits)
  then have "list_all2 (\<lambda>x y. same_physical_size p x = Inr y) imgs us"
    by (simp add: collect_Inr_iff)
  with assms(2) obtain u where "same_physical_size p i = Inr u"
    by (auto simp: in_set_conv_nth list_all2_conv_all_nth)
  then show ?thesis
    by (auto simp: same_physical_size_def split: sum.splits if_splits)
qed

lemma macsima_assemble_Inr:
  assumes "macsima_assemble transformations (naming, selected) = Inr out"
  shows "\<exists>p name x0 rest.
           check_physical_sizes (map (\<lambda>x. snd (snd x)) selected) = Inr p
         \<and> selected = x0 # rest \<and> dims_order (snd (snd x0)) = ''TCZYX''
         \<and> stack (map (\<lambda>x. squeeze (data_shape (snd (snd x)))) selected) = Inr (array_shape out)
         \<and> length (array_shape out) = 3
         \<and> snd naming = Some name \<and> image_name out = clean_string name
         \<and> dims out = [''c'', ''y'', ''x'']
         \<and> c_coords out = map fst selected
         \<and> to_coordinate_system out = fst naming
         \<and> transformation out = (if transformations then Scale [p, p] [''x'', ''y''] else Identity)"
proof -
  have third: "(\<lambda>(elem1, elem2, elem3). elem3) = (\<lambda>x :: triple. snd (snd x))"
    by auto
  show ?thesis
    using assms unfolding macsima_assemble_def third
    by (auto simp: Let_def comp_def split: sum.splits list.splits if_splits option.splits)
qed

lemma macsima_Inr:
  "macsima vx c_subset transformations imgs = Inr out \<longleftrightarrow>
     (\<exists>naming selected. macsima_select vx c_subset imgs = Inr (naming, selected)
        \<and> macsima_assemble transformations (naming, selected) = Inr out)"
  by (auto simp: macsima_def split: sum.splits)

lemma macsima_select_Inl:
  "macsima_select vx c_subset imgs = Inl e \<Longrightarrow> macsima vx c_subset transformations imgs = Inl e"
  by (simp add: macsima_def)

lemma of_char_range:
  assumes "b \<le> 256"
  shows "(of_char c :: nat) \<in> set [a..<b] \<longleftrightarrow> c \<in> set (map char_of [a..<b])"
proof
  assume "(of_char c :: nat) \<in> set [a..<b]"
  then have "char_of (of_char c :: nat) \<in> char_of ` set [a..<b]"
    by (rule imageI)
  then show "c \<in> set (map char_of [a..<b])"
    by simp
next
  assume "c \<in> set (map char_of [a..<b])"
  then obtain m where m: "m \<in> set [a..<b]" "c = char_of m"
    unfolding set_map by blast
  with assms have "m < 256" by simp
  then have "(of_char (char_of m) :: nat) = m" by simp
  with m show "(of_char c :: nat) \<in> set [a..<b]" by simp
qed

lemma lower_case_letters: "map char_of [97..<123::nat] = ''abcdefghijklmnopqrstuvwxyz''"
  by code_simp

lemma upper_case_letters: "map char_of [65..<91::nat] = ''ABCDEFGHIJKLMNOPQRSTUVWXYZ''"
  by code_simp

lemma decimal_digits: "map char_of [48..<58::nat] = ''0123456789''"
  by code_simp

lemma underscore: "map char_of [95..<96::nat] = ''_''"
  by code_simp

lemma digit_iff: "digit c \<longleftrightarrow> c \<in> set ''0123456789''"
proof -
  have le: "(58::nat) \<le> 256" by simp
  have "digit c \<longleftrightarrow> (of_char c :: nat) \<in> set [48..<58]"
    unfolding digit_def set_upt atLeastLessThan_iff by presburger
  then show ?thesis
    unfolding of_char_range[OF le, of c 48, unfolded decimal_digits] .
qed

lemma word_char_iff:
  "word_char c \<longleftrightarrow>
     c \<in> set (''abcdefghijklmnopqrstuvwxyz'' @ ''ABCDEFGHIJKLMNOPQRSTUVWXYZ'' @ ''0123456789'' @ ''_'')"
proof -
  have le: "(123::nat) \<le> 256" "(91::nat) \<le> 256" "(58::nat) \<le> 256" "(96::nat) \<le> 256"
    by simp_all
  have "word_char c \<longleftrightarrow>
          (of_char c :: nat) \<in> set [97..<123] \<or> (of_char c :: nat) \<in> set [65..<91]
        \<or> (of_char c :: nat) \<in> set [48..<58] \<or> (of_char c :: nat) \<in> set [95..<96]"
    unfolding word_char_def Let_def set_upt atLeastLessThan_iff by presburger
  then show ?thesis
    unfolding of_char_range[OF le(1), of c 97, unfolded lower_case_letters]
      of_char_range[OF le(2), of c 65, unfolded upper_case_letters]
      of_char_range[OF le(3), of c 48, unfolded decimal_digits]
      of_char_range[OF le(4), of c 95, unfolded underscore]
    by (simp only: set_append Un_iff)
qed

lemma clean_string_length: "length (clean_string s) = length s"
  by (simp add: clean_string_def)

lemma clean_string_nth:
  "i < length s \<Longrightarrow> clean_string s ! i = (if word_char (s ! i) then s ! i else CHR ''_'')"
  by (simp add: clean_string_def)

lemma roi_names_Inr:
  assumes "roi_names name0 (r0 # rs) = Inr naming"
  shows "naming = (case r0 of None \<Rightarrow> (''global'', name0)
                   | Some r \<Rightarrow> (''global_'' @ r, Some (format_str name0 @ ''_'' @ r)))
         \<and> (\<forall>r. r0 = Some r \<longrightarrow> list_all (\<lambda>x. x = Some r) (r0 # rs))"
  using assms by (auto simp: roi_names_def split: option.splits if_splits)

section \<open>Evaluation of the reader on concrete inputs\<close>

lemmas example_defs = example_keys_def example_image_def example_pixels_def

lemmas reader_defs = macsima_def macsima_select_def macsima_assemble_def get_metadata_def
  get_cycle_def get_structured_annotations_def get_channel_name_def get_reagents_def
  get_roi_id_def roi_names_def sort_by_cycle_def cycle_key_def number_pattern_match_def
  digit_def int_of_digits_def subset_channels_def derived_name_def name_parts_def
  check_physical_sizes_def physical_size_of_def same_physical_size_def
  parse_physical_size_def squeeze_def stack_def clean_string_def word_char_def
  List.map_filter_def

section \<open>The claims\<close>

text \<open>
  Claim C5. Physical-size normalization, given a pixel descriptor with equal x and y
  magnitudes \<open>m\<close> and equal x and y units, returns \<open>m / 1000\<close> when the unit is
  nanometers and \<open>m\<close> when it is micrometers, and fails with the unrecognized-unit
  error (line 169) for any other unit; it fails with an unsupported-geometry error
  when the units differ (line 158) or the magnitudes differ (line 161). The magnitudes
  are exact rationals here, so \<open>m / 1000\<close> is the exact quotient.
\<close>

theorem parse_physical_size_cases:
  "(physical_size_x_unit px = physical_size_y_unit px
      \<and> physical_size_x px = Some m \<and> physical_size_y px = Some m \<longrightarrow>
        (physical_size_x_unit px = NANOMETER \<longrightarrow> parse_physical_size px = Inr (m / 1000))
      \<and> (physical_size_x_unit px = MICROMETER \<longrightarrow> parse_physical_size px = Inr m)
      \<and> (physical_size_x_unit px \<noteq> NANOMETER \<and> physical_size_x_unit px \<noteq> MICROMETER \<longrightarrow>
           parse_physical_size px = Inl NotImplementedError_unit_unknown))
   \<and> (physical_size_x_unit px \<noteq> physical_size_y_unit px \<longrightarrow>
        parse_physical_size px = Inl NotImplementedError_units_differ)
   \<and> (physical_size_x_unit px = physical_size_y_unit px
        \<and> physical_size_x px \<noteq> physical_size_y px \<longrightarrow>
        parse_physical_size px = Inl NotImplementedError_sizes_differ)"
  by (simp add: parse_physical_size_def)

text \<open>
  The claim's examples: 500 nanometers give 0.5; 1000 nanometers and 1 micrometer give
  the same value; x = 500 with y = 600 is refused.
\<close>

theorem parse_physical_size_cases_witness:
  "parse_physical_size (example_pixels 500 NANOMETER) = Inr (1 / 2)
   \<and> parse_physical_size (example_pixels 1000 NANOMETER)
       = parse_physical_size (example_pixels 1 MICROMETER)
   \<and> parse_physical_size (example_pixels 1 MICROMETER) = Inr 1
   \<and> parse_physical_size (example_pixels 2 MILLIMETER) = Inl NotImplementedError_unit_unknown
   \<and> parse_physical_size ((example_pixels 500 NANOMETER)\<lparr>physical_size_y := Some 600\<rparr>)
       = Inl NotImplementedError_sizes_differ
   \<and> parse_physical_size ((example_pixels 500 MICROMETER)\<lparr>physical_size_y_unit := NANOMETER\<rparr>)
       = Inl NotImplementedError_units_differ"
  using parse_physical_size_cases[of "example_pixels 500 NANOMETER" 500]
    parse_physical_size_cases[of "example_pixels 1000 NANOMETER" 1000]
    parse_physical_size_cases[of "example_pixels 1 MICROMETER" 1]
    parse_physical_size_cases[of "example_pixels 2 MILLIMETER" 2]
    parse_physical_size_cases[of "(example_pixels 500 NANOMETER)\<lparr>physical_size_y := Some 600\<rparr>" 500]
    parse_physical_size_cases[of "(example_pixels 500 MICROMETER)\<lparr>physical_size_y_unit := NANOMETER\<rparr>" 500]
  by (simp add: example_pixels_def)

text \<open>
  Claim C8. Channel-name extraction (lines 132 to 138) succeeds exactly when the
  channel-names attribute is present with one entry that is not empty, and returns that
  entry; a missing attribute fails with the attribute-not-found error (line 134), an
  entry that is empty with the value-not-specified error (line 138), more than one
  entry with the assertion of line 135. Whenever the extraction fails, \<open>_get_metadata\<close>
  fails, and with the same error once the cycle and the scan type were read.
\<close>

theorem channel_name_extraction:
  "(get_channel_name img = Inr c \<longleftrightarrow> channel_names img = Some [c] \<and> c \<noteq> [])
   \<and> (channel_names img = None \<longrightarrow> get_channel_name img = Inl AttributeError_channel_names)
   \<and> (channel_names img = Some [[]] \<longrightarrow> get_channel_name img = Inl ValueError_channel_names)
   \<and> (\<forall>cs. channel_names img = Some cs \<and> 1 < length cs \<longrightarrow>
          get_channel_name img = Inl AssertionError_channel_names)
   \<and> (\<forall>e. get_channel_name img = Inl e \<longrightarrow>
          (\<exists>e'. get_metadata vx img = Inl e')
        \<and> ((\<exists>cycle. get_cycle vx img = Inr cycle)
             \<and> (\<exists>scantype. get_structured_annotations img (SCANTYPE vx) = Inr scantype) \<longrightarrow>
           get_metadata vx img = Inl e))"
proof -
  have "get_channel_name img = Inr c \<longleftrightarrow> channel_names img = Some [c] \<and> c \<noteq> []"
    by (auto simp: get_channel_name_def split: option.splits list.splits)
  moreover have "channel_names img = None \<longrightarrow> get_channel_name img = Inl AttributeError_channel_names"
    by (simp add: get_channel_name_def)
  moreover have "channel_names img = Some [[]] \<longrightarrow> get_channel_name img = Inl ValueError_channel_names"
    by (simp add: get_channel_name_def)
  moreover have "\<forall>cs. channel_names img = Some cs \<and> 1 < length cs \<longrightarrow>
          get_channel_name img = Inl AssertionError_channel_names"
    by (auto simp: get_channel_name_def split: list.splits)
  moreover have "\<forall>e. get_channel_name img = Inl e \<longrightarrow>
          (\<exists>e'. get_metadata vx img = Inl e')
        \<and> ((\<exists>cycle. get_cycle vx img = Inr cycle)
             \<and> (\<exists>scantype. get_structured_annotations img (SCANTYPE vx) = Inr scantype) \<longrightarrow>
           get_metadata vx img = Inl e)"
    by (auto simp: get_metadata_def split: sum.splits)
  ultimately show ?thesis by blast
qed

theorem channel_name_extraction_witness:
  "get_channel_name (example_image ''1'' ''DAPI'' None (example_pixels 1 MICROMETER) ''TCZYX'')
     = Inr ''DAPI''
   \<and> get_channel_name
        ((example_image ''1'' ''DAPI'' None (example_pixels 1 MICROMETER) ''TCZYX'')
           \<lparr>channel_names := None\<rparr>) = Inl AttributeError_channel_names
   \<and> get_channel_name (example_image ''1'' [] None (example_pixels 1 MICROMETER) ''TCZYX'')
     = Inl ValueError_channel_names
   \<and> get_channel_name
        ((example_image ''1'' ''DAPI'' None (example_pixels 1 MICROMETER) ''TCZYX'')
           \<lparr>channel_names := Some [''DAPI'', ''CD3'']\<rparr>) = Inl AssertionError_channel_names
   \<and> get_metadata example_keys
        ((example_image ''1'' ''DAPI'' None (example_pixels 1 MICROMETER) ''TCZYX'')
           \<lparr>channel_names := None\<rparr>) = Inl AttributeError_channel_names"
proof -
  let ?img = "example_image ''1'' ''DAPI'' None (example_pixels 1 MICROMETER) ''TCZYX''"
  let ?none = "?img\<lparr>channel_names := None\<rparr>"
  let ?two = "?img\<lparr>channel_names := Some [''DAPI'', ''CD3'']\<rparr>"
  let ?empty = "example_image ''1'' [] None (example_pixels 1 MICROMETER) ''TCZYX''"
  have one: "channel_names ?img = Some [''DAPI''] \<and> ''DAPI'' \<noteq> []"
    by (simp add: example_image_def)
  have none: "channel_names ?none = None"
    by simp
  have empty: "channel_names ?empty = Some [[]]"
    by (simp add: example_image_def)
  have two: "channel_names ?two = Some [''DAPI'', ''CD3''] \<and> 1 < length [''DAPI'', ''CD3'']"
    by simp
  have read: "(\<exists>cycle. get_cycle example_keys ?none = Inr cycle)
      \<and> (\<exists>scantype. get_structured_annotations ?none (SCANTYPE example_keys) = Inr scantype)"
    by (simp add: reader_defs example_defs)
  from channel_name_extraction[of ?img "''DAPI''" example_keys] one
  have "get_channel_name ?img = Inr ''DAPI''" by blast
  moreover from channel_name_extraction[of ?none "''DAPI''" example_keys] none read
  have "get_channel_name ?none = Inl AttributeError_channel_names"
    and "get_metadata example_keys ?none = Inl AttributeError_channel_names"
    by blast+
  moreover from channel_name_extraction[of ?empty "''DAPI''" example_keys] empty
  have "get_channel_name ?empty = Inl ValueError_channel_names" by blast
  moreover from channel_name_extraction[of ?two "''DAPI''" example_keys] two
  have "get_channel_name ?two = Inl AssertionError_channel_names" by blast
  ultimately show ?thesis by blast
qed

lemma collect_hd:
  "collect f (x # xs) = Inr ys \<Longrightarrow> \<exists>y ys'. ys = y # ys' \<and> f x = Inr y"
  by (auto split: sum.splits)

text \<open>
  The image name and the coordinate system as lines 63 to 74 and 111 compute them, and
  the channel labels. Every character of the name outside \<open>[A-Za-z0-9_]\<close> is replaced
  by \<open>_\<close>, one for one; the channel labels are the names of line 76 as they are, and
  the coordinate system holds the id as it is: neither goes through the cleaning.
\<close>

lemma image_name_cleaned:
  assumes "macsima vx c_subset transformations imgs = Inr out"
  shows "\<exists>img0 rest ex0 exs md0 naming selected.
           imgs = img0 # rest \<and> experiments (ome_metadata img0) = ex0 # exs
         \<and> get_metadata vx img0 = Inr md0
         \<and> macsima_select vx c_subset imgs = Inr (naming, selected)
         \<and> image_name out =
             clean_string (format_str (description ex0)
               @ (case md_roi_id md0 of None \<Rightarrow> [] | Some roi_id \<Rightarrow> ''_'' @ roi_id))
         \<and> (\<forall>s. clean_string s =
               map (\<lambda>c. if c \<in> set (''abcdefghijklmnopqrstuvwxyz''
                                      @ ''ABCDEFGHIJKLMNOPQRSTUVWXYZ'' @ ''0123456789'' @ ''_'')
                         then c else CHR ''_'') s)
         \<and> c_coords out = map fst selected
         \<and> list_all (\<lambda>x. \<exists>md. get_metadata vx (snd (snd x)) = Inr md \<and> fst x = derived_name md)
              selected
         \<and> to_coordinate_system out =
             (case md_roi_id md0 of None \<Rightarrow> ''global'' | Some roi_id \<Rightarrow> ''global_'' @ roi_id)"
proof -
  from assms obtain naming selected where
    sel: "macsima_select vx c_subset imgs = Inr (naming, selected)"
    and asm: "macsima_assemble transformations (naming, selected) = Inr out"
    by (auto simp: macsima_Inr)
  from macsima_select_Inr[OF sel] obtain img0 rest ex0 exs mds where
    imgs: "imgs = img0 # rest" and ex: "experiments (ome_metadata img0) = ex0 # exs"
    and mds: "collect (get_metadata vx) imgs = Inr mds"
    and roi: "roi_names (description ex0) (map md_roi_id mds) = Inr naming"
    by blast
  from collect_hd[OF mds[unfolded imgs]] obtain md0 mds' where
    mds': "mds = md0 # mds'" and md0: "get_metadata vx img0 = Inr md0"
    by blast
  from roi_names_Inr[OF roi[unfolded mds' list.map]]
  have naming: "naming = (case md_roi_id md0 of None \<Rightarrow> (''global'', description ex0)
        | Some r \<Rightarrow> (''global_'' @ r, Some (format_str (description ex0) @ ''_'' @ r)))"
    by blast
  from macsima_assemble_Inr[OF asm] obtain name where
    name: "snd naming = Some name" and out: "image_name out = clean_string name"
    and cc: "c_coords out = map fst selected" and cs: "to_coordinate_system out = fst naming"
    by blast
  from naming name have "name = format_str (description ex0)
               @ (case md_roi_id md0 of None \<Rightarrow> [] | Some roi_id \<Rightarrow> ''_'' @ roi_id)"
    by (auto split: option.splits)
  with out have 1: "image_name out =
             clean_string (format_str (description ex0)
               @ (case md_roi_id md0 of None \<Rightarrow> [] | Some roi_id \<Rightarrow> ''_'' @ roi_id))"
    by simp
  have 2: "\<forall>s. clean_string s =
               map (\<lambda>c. if c \<in> set (''abcdefghijklmnopqrstuvwxyz''
                                      @ ''ABCDEFGHIJKLMNOPQRSTUVWXYZ'' @ ''0123456789'' @ ''_'')
                         then c else CHR ''_'') s"
    unfolding clean_string_def word_char_iff by simp
  have 3: "list_all (\<lambda>x. \<exists>md. get_metadata vx (snd (snd x)) = Inr md \<and> fst x = derived_name md)
              selected"
    unfolding list_all_iff using selected_consistent[OF sel] by blast
  from naming cs have 4: "to_coordinate_system out =
             (case md_roi_id md0 of None \<Rightarrow> ''global'' | Some roi_id \<Rightarrow> ''global_'' @ roi_id)"
    by (simp split: option.splits)
  from imgs ex md0 sel 1 2 cc 3 4 show ?thesis by blast
qed

text \<open>
  A file with region of interest \<open>ROI-2\<close>: the hyphen is replaced in the image name and
  kept in the channel label and in the coordinate system; and the cleaning of
  \<open>Exp #1 (ROI-2)\<close>.
\<close>

lemma image_name_cleaned_example:
  "macsima example_keys None False
     [example_image ''1'' ''DAPI'' (Some ''ROI-2'') (example_pixels 1 MICROMETER) ''TCZYX'']
     = Inr \<lparr>image_name = ''Exp__1_ROI_2'', array_shape = [1, 4, 4],
            dims = [''c'', ''y'', ''x''], c_coords = [''1_DAPI_ROI-2''],
            to_coordinate_system = ''global_ROI-2'', transformation = Identity\<rparr>
   \<and> clean_string ''Exp #1 (ROI-2)'' = ''Exp__1__ROI_2_''"
proof -
  let ?imgs = "[example_image ''1'' ''DAPI'' (Some ''ROI-2'') (example_pixels 1 MICROMETER) ''TCZYX'']"
  let ?out = "\<lparr>image_name = ''Exp__1_ROI_2'', array_shape = [1, 4, 4],
            dims = [''c'', ''y'', ''x''], c_coords = [''1_DAPI_ROI-2''],
            to_coordinate_system = ''global_ROI-2'', transformation = Identity\<rparr>"
  have h: "macsima example_keys None False ?imgs = Inr ?out"
    by (simp add: reader_defs example_defs)
  from image_name_cleaned[OF h]
  have "clean_string ''Exp #1 (ROI-2)'' =
               map (\<lambda>c. if c \<in> set (''abcdefghijklmnopqrstuvwxyz''
                                      @ ''ABCDEFGHIJKLMNOPQRSTUVWXYZ'' @ ''0123456789'' @ ''_'')
                         then c else CHR ''_'') ''Exp #1 (ROI-2)''"
    by blast
  then have "clean_string ''Exp #1 (ROI-2)'' = ''Exp__1__ROI_2_''"
    by simp
  with h show ?thesis by blast
qed

lemma combined_member:
  assumes "list_all2 (\<lambda>i md. get_metadata vx i = Inr md) imgs mds"
    and "img \<in> set imgs" and "get_metadata vx img = Inr md"
  shows "(derived_name md, md_channel_name md, img)
           \<in> set (zip (map derived_name mds) (zip (map md_channel_name mds) imgs))"
  using assms
proof (induction rule: list_all2_induct)
  case Nil
  then show ?case by simp
next
  case (Cons i rest m mds')
  then show ?case by auto
qed

lemma sorted_selected:
  assumes "macsima_select vx c_subset imgs = Inr (naming, selected)"
  shows "sorted (map (\<lambda>x. cycle_number (fst x)) selected)
         \<and> list_all (\<lambda>x. number_pattern_match (fst x) \<noteq> None) selected"
proof -
  from macsima_select_Inr[OF assms] obtain mds where
    digits: "list_all (\<lambda>x. number_pattern_match (fst x) \<noteq> None)
              (zip (map derived_name mds) (zip (map md_channel_name mds) imgs))"
    and sel: "selected = filter (in_c_subset c_subset)
              (sort_key (\<lambda>x. cycle_number (fst x))
                 (zip (map derived_name mds) (zip (map md_channel_name mds) imgs)))"
    by blast
  have "sorted (map (\<lambda>x. cycle_number (fst x)) selected)"
    unfolding sel by (rule sorted_filter) (rule sorted_sort_key)
  moreover have "list_all (\<lambda>x. number_pattern_match (fst x) \<noteq> None) selected"
    using digits unfolding sel list_all_iff by simp
  ultimately show ?thesis by simp
qed

lemma macsima_select_no_digit:
  assumes "img \<in> set imgs" and "get_metadata vx img = Inr md"
    and "number_pattern_match (derived_name md) = None"
  shows "\<exists>e. macsima_select vx c_subset imgs = Inl e"
proof (cases "macsima_select vx c_subset imgs")
  case (Inl e)
  then show ?thesis by simp
next
  case (Inr st)
  obtain naming selected where st: "st = (naming, selected)"
    by (cases st)
  from macsima_select_Inr[OF Inr[unfolded st]] obtain mds where
    mds: "collect (get_metadata vx) imgs = Inr mds"
    and digits: "list_all (\<lambda>x. number_pattern_match (fst x) \<noteq> None)
              (zip (map derived_name mds) (zip (map md_channel_name mds) imgs))"
    by blast
  from mds have "list_all2 (\<lambda>i md. get_metadata vx i = Inr md) imgs mds"
    by (simp add: collect_Inr_iff)
  from combined_member[OF this assms(1,2)] digits
  have "number_pattern_match (derived_name md) \<noteq> None"
    unfolding list_all_iff by fastforce
  with assms(3) show ?thesis by simp
qed

text \<open>
  Claim C1, as the code has it. When the reader returns, every channel label is the
  name of one of the files, the labels are sorted by that name's cycle number, and the
  name joins with \<open>_\<close> the non-empty parts among cycle, scan type, channel name,
  region-of-interest id and reagent name, in this order.
\<close>

theorem derived_name_parts:
  assumes "macsima vx c_subset transformations imgs = Inr out"
  shows "\<exists>naming selected.
           macsima_select vx c_subset imgs = Inr (naming, selected)
         \<and> c_coords out = map fst selected
         \<and> sorted (map (\<lambda>x. cycle_number (fst x)) selected)
         \<and> list_all
              (\<lambda>x. \<exists>md. snd (snd x) \<in> set imgs \<and> get_metadata vx (snd (snd x)) = Inr md
                 \<and> fst x = join ''_'' (true_parts
                     [Some (md_cycle md), md_scantype md, Some (md_channel_name md),
                      md_roi_id md, md_reagents md]))
              selected"
proof -
  from assms obtain naming selected where
    sel: "macsima_select vx c_subset imgs = Inr (naming, selected)"
    and asm: "macsima_assemble transformations (naming, selected) = Inr out"
    by (auto simp: macsima_Inr)
  from macsima_assemble_Inr[OF asm] have cc: "c_coords out = map fst selected"
    by blast
  have "list_all
              (\<lambda>x. \<exists>md. snd (snd x) \<in> set imgs \<and> get_metadata vx (snd (snd x)) = Inr md
                 \<and> fst x = join ''_'' (true_parts
                     [Some (md_cycle md), md_scantype md, Some (md_channel_name md),
                      md_roi_id md, md_reagents md]))
              selected"
    unfolding list_all_iff
    using selected_consistent[OF sel] by (fastforce simp: derived_name_def name_parts_def)
  with sel cc sorted_selected[OF sel] show ?thesis by blast
qed

theorem derived_name_parts_witness:
  "macsima example_keys None False
     [example_image ''1'' ''DAPI'' (Some ''R1'') (example_pixels 1 MICROMETER) ''TCZYX'']
     = Inr \<lparr>image_name = ''Exp__1_R1'', array_shape = [1, 4, 4],
            dims = [''c'', ''y'', ''x''], c_coords = [''1_DAPI_R1''],
            to_coordinate_system = ''global_R1'', transformation = Identity\<rparr>
   \<and> join ''_'' (true_parts [Some ''1'', None, Some ''DAPI'', Some ''R1'', None]) = ''1_DAPI_R1''"
proof -
  let ?imgs = "[example_image ''1'' ''DAPI'' (Some ''R1'') (example_pixels 1 MICROMETER) ''TCZYX'']"
  let ?out = "\<lparr>image_name = ''Exp__1_R1'', array_shape = [1, 4, 4],
            dims = [''c'', ''y'', ''x''], c_coords = [''1_DAPI_R1''],
            to_coordinate_system = ''global_R1'', transformation = Identity\<rparr>"
  have h: "macsima example_keys None False ?imgs = Inr ?out"
    by (simp add: reader_defs example_defs)
  from derived_name_parts[OF h] obtain selected :: "triple list" where
    "c_coords ?out = map fst selected"
    by blast
  with h show ?thesis by simp
qed

text \<open>
  The claim as stated leaves the region-of-interest id out of the name. A file of cycle
  1, channel DAPI and region of interest R1 gets the label \<open>1_DAPI_R1\<close>; the join of its
  cycle, scan type, channel name and reagent name is \<open>1_DAPI\<close>.
\<close>

theorem derived_name_counterexample:
  "macsima example_keys None False
     [example_image ''1'' ''DAPI'' (Some ''R1'') (example_pixels 1 MICROMETER) ''TCZYX'']
     = Inr \<lparr>image_name = ''Exp__1_R1'', array_shape = [1, 4, 4],
            dims = [''c'', ''y'', ''x''], c_coords = [''1_DAPI_R1''],
            to_coordinate_system = ''global_R1'', transformation = Identity\<rparr>
   \<and> get_metadata example_keys
        (example_image ''1'' ''DAPI'' (Some ''R1'') (example_pixels 1 MICROMETER) ''TCZYX'')
     = Inr \<lparr>md_cycle = ''1'', md_scantype = None, md_channel_name = ''DAPI'',
            md_roi_id = Some ''R1'', md_reagents = None\<rparr>
   \<and> join ''_'' (true_parts [Some ''1'', None, Some ''DAPI'', None]) = ''1_DAPI''
   \<and> ''1_DAPI_R1'' \<noteq> ''1_DAPI''"
  by (simp add: reader_defs example_defs)

lemma int_of_digits_snoc:
  "int_of_digits (ds @ [c]) = 10 * int_of_digits ds + (int (of_char c) - 48)"
  by (simp add: int_of_digits_def)

lemma int_of_digits_single:
  "map int_of_digits [''0'', ''1'', ''2'', ''3'', ''4'', ''5'', ''6'', ''7'', ''8'', ''9'']
     = [0, 1, 2, 3, 4, 5, 6, 7, 8, 9]"
  by (simp add: int_of_digits_def)

lemma digit_class: "digit = (\<lambda>c. c \<in> set ''0123456789'')"
  by (rule ext) (rule digit_iff)

lemma cycle_number_decimal:
  "cycle_number n = int_of_digits (takeWhile (\<lambda>c. c \<in> set ''0123456789'') n)"
  unfolding cycle_number_def digit_class ..

lemma number_pattern_match_None:
  "number_pattern_match n = None \<longleftrightarrow> takeWhile (\<lambda>c. c \<in> set ''0123456789'') n = []"
  unfolding number_pattern_match_def digit_class by (simp only: list.case_eq_if) simp

text \<open>
  Claim C4. When the reader returns, the channel labels are in ascending order of the
  integer that the leading run of decimal digits of the label denotes, and every label
  starts with a digit; when the name of any file of the invocation does not start with
  a digit, the reader fails. The integer of a label is that of its longest prefix of
  characters among \<open>0\<close> to \<open>9\<close>, read in base ten: nothing for the empty run, and ten
  times the integer of the run before its last digit plus that digit.
\<close>

theorem cycle_order:
  "(macsima vx c_subset transformations imgs = Inr out \<longrightarrow>
       sorted (map cycle_number (c_coords out))
     \<and> list_all (\<lambda>n. number_pattern_match n \<noteq> None) (c_coords out))
   \<and> (img \<in> set imgs \<and> get_metadata vx img = Inr md
        \<and> number_pattern_match (derived_name md) = None \<longrightarrow>
       (\<exists>e. macsima vx c_subset transformations imgs = Inl e))
   \<and> (\<forall>n. cycle_number n = int_of_digits (takeWhile (\<lambda>c. c \<in> set ''0123456789'') n))
   \<and> (\<forall>n. number_pattern_match n = None
          \<longleftrightarrow> takeWhile (\<lambda>c. c \<in> set ''0123456789'') n = [])
   \<and> int_of_digits [] = 0
   \<and> (\<forall>ds c. int_of_digits (ds @ [c]) = 10 * int_of_digits ds + (int (of_char c) - 48))
   \<and> map (\<lambda>c. int (of_char c) - 48) ''0123456789'' = [0, 1, 2, 3, 4, 5, 6, 7, 8, 9]"
proof -
  have 1: "sorted (map cycle_number (c_coords out))
     \<and> list_all (\<lambda>n. number_pattern_match n \<noteq> None) (c_coords out)"
    if "macsima vx c_subset transformations imgs = Inr out"
  proof -
    from that obtain naming selected where
      sel: "macsima_select vx c_subset imgs = Inr (naming, selected)"
      and asm: "macsima_assemble transformations (naming, selected) = Inr out"
      by (auto simp: macsima_Inr)
    from macsima_assemble_Inr[OF asm] have cc: "c_coords out = map fst selected"
      by blast
    from sorted_selected[OF sel] show ?thesis
      unfolding cc by (simp add: comp_def list_all_iff)
  qed
  have 2: "\<exists>e. macsima vx c_subset transformations imgs = Inl e"
    if "img \<in> set imgs \<and> get_metadata vx img = Inr md
        \<and> number_pattern_match (derived_name md) = None"
  proof -
    from that obtain e where "macsima_select vx c_subset imgs = Inl e"
      using macsima_select_no_digit[of img imgs vx md c_subset] by blast
    then show ?thesis
      by (auto simp: macsima_def)
  qed
  have 3: "int_of_digits [] = 0"
    by (simp add: int_of_digits_def)
  have 4: "map (\<lambda>c. int (of_char c) - 48) ''0123456789'' = [0, 1, 2, 3, 4, 5, 6, 7, 8, 9]"
    by simp
  from 1 2 3 4 cycle_number_decimal number_pattern_match_None int_of_digits_snoc
  show ?thesis by blast
qed

text \<open>
  Files of cycles 3, 1 and 2 that agree in every other field come out in the order 1,
  2, 3. Files of cycles 10, 2, 007 and 123 come out as 2, 007, 10, 123: the order is
  that of the integers 2, 7, 10, 123, not of the first digits and not of the strings.
  A file whose cycle is \<open>C2\<close> makes the reader fail at line 79.
\<close>

theorem cycle_order_witness:
  "macsima example_keys None False
     [example_image ''3'' ''DAPI'' None (example_pixels 1 MICROMETER) ''TCZYX'',
      example_image ''1'' ''DAPI'' None (example_pixels 1 MICROMETER) ''TCZYX'',
      example_image ''2'' ''DAPI'' None (example_pixels 1 MICROMETER) ''TCZYX'']
     = Inr \<lparr>image_name = ''Exp__1'', array_shape = [3, 4, 4],
            dims = [''c'', ''y'', ''x''], c_coords = [''1_DAPI'', ''2_DAPI'', ''3_DAPI''],
            to_coordinate_system = ''global'', transformation = Identity\<rparr>
   \<and> map cycle_number [''1_DAPI'', ''2_DAPI'', ''3_DAPI''] = [1, 2, 3]
   \<and> macsima example_keys None False
     [example_image ''10'' ''B'' None (example_pixels 1 MICROMETER) ''TCZYX'',
      example_image ''2'' ''A'' None (example_pixels 1 MICROMETER) ''TCZYX'',
      example_image ''007'' ''C'' None (example_pixels 1 MICROMETER) ''TCZYX'',
      example_image ''123'' ''D'' None (example_pixels 1 MICROMETER) ''TCZYX'']
     = Inr \<lparr>image_name = ''Exp__1'', array_shape = [4, 4, 4],
            dims = [''c'', ''y'', ''x''], c_coords = [''2_A'', ''007_C'', ''10_B'', ''123_D''],
            to_coordinate_system = ''global'', transformation = Identity\<rparr>
   \<and> map cycle_number [''2_A'', ''007_C'', ''10_B'', ''123_D''] = [2, 7, 10, 123]
   \<and> macsima example_keys None False
     [example_image ''1'' ''DAPI'' None (example_pixels 1 MICROMETER) ''TCZYX'',
      example_image ''C2'' ''DAPI'' None (example_pixels 1 MICROMETER) ''TCZYX'']
     = Inl AttributeError_group"
proof -
  let ?imgs = "[example_image ''3'' ''DAPI'' None (example_pixels 1 MICROMETER) ''TCZYX'',
      example_image ''1'' ''DAPI'' None (example_pixels 1 MICROMETER) ''TCZYX'',
      example_image ''2'' ''DAPI'' None (example_pixels 1 MICROMETER) ''TCZYX'']"
  let ?out = "\<lparr>image_name = ''Exp__1'', array_shape = [3, 4, 4],
            dims = [''c'', ''y'', ''x''], c_coords = [''1_DAPI'', ''2_DAPI'', ''3_DAPI''],
            to_coordinate_system = ''global'', transformation = Identity\<rparr>"
  let ?long = "[example_image ''10'' ''B'' None (example_pixels 1 MICROMETER) ''TCZYX'',
      example_image ''2'' ''A'' None (example_pixels 1 MICROMETER) ''TCZYX'',
      example_image ''007'' ''C'' None (example_pixels 1 MICROMETER) ''TCZYX'',
      example_image ''123'' ''D'' None (example_pixels 1 MICROMETER) ''TCZYX'']"
  let ?out' = "\<lparr>image_name = ''Exp__1'', array_shape = [4, 4, 4],
            dims = [''c'', ''y'', ''x''], c_coords = [''2_A'', ''007_C'', ''10_B'', ''123_D''],
            to_coordinate_system = ''global'', transformation = Identity\<rparr>"
  let ?bad = "example_image ''C2'' ''DAPI'' None (example_pixels 1 MICROMETER) ''TCZYX''"
  let ?imgs' = "[example_image ''1'' ''DAPI'' None (example_pixels 1 MICROMETER) ''TCZYX'', ?bad]"
  let ?md = "\<lparr>md_cycle = ''C2'', md_scantype = None, md_channel_name = ''DAPI'',
            md_roi_id = None, md_reagents = None\<rparr>"
  have h: "macsima example_keys None False ?imgs = Inr ?out"
    by (simp add: reader_defs example_defs)
  from cycle_order[of example_keys None False ?imgs ?out] h
  have s: "sorted (map cycle_number (c_coords ?out))"
    by blast
  have n: "map cycle_number [''1_DAPI'', ''2_DAPI'', ''3_DAPI''] = [1, 2, 3]"
    by (simp add: cycle_number_def digit_def int_of_digits_def)
  have h': "macsima example_keys None False ?long = Inr ?out'"
    by (simp add: reader_defs example_defs)
  from cycle_order[of example_keys None False ?long ?out'] h'
  have s': "sorted (map cycle_number (c_coords ?out'))"
    by blast
  have n': "map cycle_number [''2_A'', ''007_C'', ''10_B'', ''123_D''] = [2, 7, 10, 123]"
    by (simp add: cycle_number_def digit_def int_of_digits_def)
  have b: "?bad \<in> set ?imgs' \<and> get_metadata example_keys ?bad = Inr ?md
        \<and> number_pattern_match (derived_name ?md) = None"
    by (simp add: reader_defs example_defs)
  from cycle_order[of example_keys None False ?imgs' _ ?bad ?md] b
  have "\<exists>e. macsima example_keys None False ?imgs' = Inl e"
    by blast
  moreover have "macsima example_keys None False ?imgs' = Inl AttributeError_group"
    by (simp add: reader_defs example_defs)
  ultimately show ?thesis using h s n h' s' n' by blast
qed

text \<open>
  Claim C10. The sort by cycle is stable: when the reader returns, the triples that
  share a cycle number stand on the channel axis in the order in which their files
  stand in the input list (among the files that the channel list keeps).
\<close>

theorem cycle_sort_stable:
  assumes "macsima vx c_subset transformations imgs = Inr out"
  shows "\<exists>mds naming selected.
           collect (get_metadata vx) imgs = Inr mds
         \<and> macsima_select vx c_subset imgs = Inr (naming, selected)
         \<and> c_coords out = map fst selected
         \<and> (\<forall>k. filter (\<lambda>x. cycle_number (fst x) = k) selected
               = filter (\<lambda>x. cycle_number (fst x) = k)
                   (filter (in_c_subset c_subset)
                      (zip (map derived_name mds) (zip (map md_channel_name mds) imgs))))"
proof -
  from assms obtain naming selected where
    sel: "macsima_select vx c_subset imgs = Inr (naming, selected)"
    and asm: "macsima_assemble transformations (naming, selected) = Inr out"
    by (auto simp: macsima_Inr)
  from macsima_assemble_Inr[OF asm] have cc: "c_coords out = map fst selected"
    by blast
  from macsima_select_Inr[OF sel] obtain mds where
    mds: "collect (get_metadata vx) imgs = Inr mds"
    and s: "selected = filter (in_c_subset c_subset)
              (sort_key (\<lambda>x. cycle_number (fst x))
                 (zip (map derived_name mds) (zip (map md_channel_name mds) imgs)))"
    by blast
  let ?combined = "zip (map derived_name mds) (zip (map md_channel_name mds) imgs)"
  have "filter (\<lambda>x. cycle_number (fst x) = k) selected
          = filter (\<lambda>x. cycle_number (fst x) = k) (filter (in_c_subset c_subset) ?combined)" for k
  proof -
    have "filter (\<lambda>x. cycle_number (fst x) = k) selected
            = filter (in_c_subset c_subset)
                (filter (\<lambda>x. cycle_number (fst x) = k)
                   (sort_key (\<lambda>x. cycle_number (fst x)) ?combined))"
      unfolding s by (simp add: conj_commute)
    also have "\<dots> = filter (in_c_subset c_subset)
                (filter (\<lambda>x. cycle_number (fst x) = k) ?combined)"
      by (simp only: sort_key_stable)
    also have "\<dots> = filter (\<lambda>x. cycle_number (fst x) = k)
                (filter (in_c_subset c_subset) ?combined)"
      by (simp add: conj_commute)
    finally show ?thesis .
  qed
  with mds sel cc show ?thesis by blast
qed

text \<open>
  Cycle 2 first, then two files of cycle 1 with channels B and A: the two come out in
  their input order, B before A.
\<close>

theorem cycle_sort_stable_witness:
  "macsima example_keys None False
     [example_image ''2'' ''D'' None (example_pixels 1 MICROMETER) ''TCZYX'',
      example_image ''1'' ''B'' None (example_pixels 1 MICROMETER) ''TCZYX'',
      example_image ''1'' ''A'' None (example_pixels 1 MICROMETER) ''TCZYX'']
     = Inr \<lparr>image_name = ''Exp__1'', array_shape = [3, 4, 4],
            dims = [''c'', ''y'', ''x''], c_coords = [''1_B'', ''1_A'', ''2_D''],
            to_coordinate_system = ''global'', transformation = Identity\<rparr>"
proof -
  let ?imgs = "[example_image ''2'' ''D'' None (example_pixels 1 MICROMETER) ''TCZYX'',
      example_image ''1'' ''B'' None (example_pixels 1 MICROMETER) ''TCZYX'',
      example_image ''1'' ''A'' None (example_pixels 1 MICROMETER) ''TCZYX'']"
  let ?out = "\<lparr>image_name = ''Exp__1'', array_shape = [3, 4, 4],
            dims = [''c'', ''y'', ''x''], c_coords = [''1_B'', ''1_A'', ''2_D''],
            to_coordinate_system = ''global'', transformation = Identity\<rparr>"
  have h: "macsima example_keys None False ?imgs = Inr ?out"
    by (simp add: reader_defs example_defs)
  from cycle_sort_stable[OF h] obtain selected :: "triple list" where
    "c_coords ?out = map fst selected"
    by blast
  with h show ?thesis by simp
qed

lemma collect_same_physical_size_Inl:
  assumes "\<forall>i\<in>set imgs. \<exists>p. physical_size_of i = Inr p"
    and "\<exists>i\<in>set imgs. physical_size_of i \<noteq> Inr p0"
  shows "collect (same_physical_size p0) imgs = Inl AssertionError_physical_size"
  using assms
proof (induction imgs)
  case Nil
  then show ?case by simp
next
  case (Cons i rest)
  from Cons.prems(1) obtain p where p: "physical_size_of i = Inr p"
    by auto
  show ?case
  proof (cases "p = p0")
    case True
    with p Cons.prems have "collect (same_physical_size p0) rest = Inl AssertionError_physical_size"
      by (intro Cons.IH) auto
    moreover from p True have "same_physical_size p0 i = Inr ()"
      by (simp add: same_physical_size_def)
    ultimately show ?thesis
      by simp
  next
    case False
    with p have "same_physical_size p0 i = Inl AssertionError_physical_size"
      by (simp add: same_physical_size_def)
    then show ?thesis
      by simp
  qed
qed

lemma check_physical_sizes_Inl:
  assumes "\<forall>i\<in>set imgs. \<exists>p. physical_size_of i = Inr p"
    and "i \<in> set imgs" and "j \<in> set imgs" and "physical_size_of i \<noteq> physical_size_of j"
  shows "check_physical_sizes imgs = Inl AssertionError_physical_size"
proof -
  from assms(2) obtain i0 rest where imgs: "imgs = i0 # rest"
    by (cases imgs) auto
  from assms(1) imgs obtain p0 where p0: "physical_size_of i0 = Inr p0"
    by auto
  from assms(2-4) have "\<exists>i\<in>set imgs. physical_size_of i \<noteq> Inr p0"
    by metis
  from collect_same_physical_size_Inl[OF assms(1) this] imgs p0
  show ?thesis by (simp add: check_physical_sizes_def)
qed

lemma macsima_assemble_physical_size:
  "check_physical_sizes (map (\<lambda>x. snd (snd x)) selected) = Inl e \<Longrightarrow>
     macsima_assemble transformations (naming, selected) = Inl e"
proof -
  have third: "(\<lambda>(elem1, elem2, elem3). elem3) = (\<lambda>x :: triple. snd (snd x))"
    by auto
  assume "check_physical_sizes (map (\<lambda>x. snd (snd x)) selected) = Inl e"
  then show ?thesis
    unfolding macsima_assemble_def third by (simp add: Let_def)
qed

text \<open>
  Claim C6, as the code has it. The normalized physical pixel size is compared for
  equality across the images that remain after the sort and the channel subsetting
  (lines 92 to 95): when the reader returns, all of them have one normalized size, the
  one the scale transformation carries; when two of them differ in it, the reader
  fails, and with the assertion of line 95 when every one of them has a size.
\<close>

theorem physical_size_uniform:
  assumes "macsima_select vx c_subset imgs = Inr (naming, selected)"
  shows "(macsima vx c_subset transformations imgs = Inr out \<longrightarrow>
            (\<exists>p. list_all (\<lambda>x. physical_size_of (snd (snd x)) = Inr p) selected
               \<and> transformation out
                   = (if transformations then Scale [p, p] [''x'', ''y''] else Identity)))
       \<and> (x \<in> set selected \<and> y \<in> set selected
            \<and> physical_size_of (snd (snd x)) \<noteq> physical_size_of (snd (snd y)) \<longrightarrow>
            (\<exists>e. macsima vx c_subset transformations imgs = Inl e)
          \<and> (list_all (\<lambda>x. \<exists>p. physical_size_of (snd (snd x)) = Inr p) selected \<longrightarrow>
               macsima vx c_subset transformations imgs = Inl AssertionError_physical_size))"
proof -
  have m: "macsima vx c_subset transformations imgs
             = macsima_assemble transformations (naming, selected)"
    using assms by (simp add: macsima_def)
  have 1: "\<exists>p. list_all (\<lambda>x. physical_size_of (snd (snd x)) = Inr p) selected
               \<and> transformation out
                   = (if transformations then Scale [p, p] [''x'', ''y''] else Identity)"
    if "macsima vx c_subset transformations imgs = Inr out"
  proof -
    from that m have "macsima_assemble transformations (naming, selected) = Inr out"
      by simp
    from macsima_assemble_Inr[OF this] obtain p where
      p: "check_physical_sizes (map (\<lambda>x. snd (snd x)) selected) = Inr p"
      and t: "transformation out
                = (if transformations then Scale [p, p] [''x'', ''y''] else Identity)"
      by blast
    have "list_all (\<lambda>x. physical_size_of (snd (snd x)) = Inr p) selected"
      unfolding list_all_iff using check_physical_sizes_Inr[OF p] by simp
    with t show ?thesis by blast
  qed
  have 2: "\<exists>e. macsima vx c_subset transformations imgs = Inl e"
    if "x \<in> set selected" "y \<in> set selected"
      "physical_size_of (snd (snd x)) \<noteq> physical_size_of (snd (snd y))"
  proof (cases "macsima vx c_subset transformations imgs")
    case (Inl e)
    then show ?thesis by simp
  next
    case (Inr out')
    from Inr m have "macsima_assemble transformations (naming, selected) = Inr out'"
      by simp
    from macsima_assemble_Inr[OF this] obtain p where
      p: "check_physical_sizes (map (\<lambda>x. snd (snd x)) selected) = Inr p"
      by blast
    from check_physical_sizes_Inr[OF p] that(1,2)
    have "physical_size_of (snd (snd x)) = Inr p" "physical_size_of (snd (snd y)) = Inr p"
      by simp_all
    with that(3) show ?thesis by simp
  qed
  have 3: "macsima vx c_subset transformations imgs = Inl AssertionError_physical_size"
    if "x \<in> set selected" "y \<in> set selected"
      "physical_size_of (snd (snd x)) \<noteq> physical_size_of (snd (snd y))"
      "list_all (\<lambda>x. \<exists>p. physical_size_of (snd (snd x)) = Inr p) selected"
  proof -
    have "check_physical_sizes (map (\<lambda>x. snd (snd x)) selected) = Inl AssertionError_physical_size"
    proof (rule check_physical_sizes_Inl)
      show "\<forall>i\<in>set (map (\<lambda>x. snd (snd x)) selected). \<exists>p. physical_size_of i = Inr p"
        using that(4) by (auto simp: list_all_iff)
      show "snd (snd x) \<in> set (map (\<lambda>x. snd (snd x)) selected)"
        using that(1) by simp
      show "snd (snd y) \<in> set (map (\<lambda>x. snd (snd x)) selected)"
        using that(2) by simp
      show "physical_size_of (snd (snd x)) \<noteq> physical_size_of (snd (snd y))"
        by (rule that(3))
    qed
    from macsima_assemble_physical_size[OF this] m show ?thesis
      by simp
  qed
  from 1 2 3 show ?thesis by blast
qed

text \<open>
  Two files of 500 nanometers and of 0.5 micrometers have one normalized size, 1/2, and
  are read; two files of 1 and of 2 micrometers fail line 95.
\<close>

theorem physical_size_uniform_witness:
  "macsima example_keys None True
     [example_image ''1'' ''A'' None (example_pixels 500 NANOMETER) ''TCZYX'',
      example_image ''2'' ''B'' None (example_pixels (1 / 2) MICROMETER) ''TCZYX'']
     = Inr \<lparr>image_name = ''Exp__1'', array_shape = [2, 4, 4],
            dims = [''c'', ''y'', ''x''], c_coords = [''1_A'', ''2_B''],
            to_coordinate_system = ''global'',
            transformation = Scale [1 / 2, 1 / 2] [''x'', ''y'']\<rparr>
   \<and> macsima example_keys None True
     [example_image ''1'' ''A'' None (example_pixels 1 MICROMETER) ''TCZYX'',
      example_image ''2'' ''B'' None (example_pixels 2 MICROMETER) ''TCZYX'']
     = Inl AssertionError_physical_size"
proof -
  let ?a = "example_image ''1'' ''A'' None (example_pixels 500 NANOMETER) ''TCZYX''"
  let ?b = "example_image ''2'' ''B'' None (example_pixels (1 / 2) MICROMETER) ''TCZYX''"
  let ?c = "example_image ''1'' ''A'' None (example_pixels 1 MICROMETER) ''TCZYX''"
  let ?d = "example_image ''2'' ''B'' None (example_pixels 2 MICROMETER) ''TCZYX''"
  let ?naming = "(''global'', Some ''Exp #1'')"
  let ?out = "\<lparr>image_name = ''Exp__1'', array_shape = [2, 4, 4],
            dims = [''c'', ''y'', ''x''], c_coords = [''1_A'', ''2_B''],
            to_coordinate_system = ''global'',
            transformation = Scale [1 / 2, 1 / 2] [''x'', ''y'']\<rparr>"
  have s1: "macsima_select example_keys None [?a, ?b]
              = Inr (?naming, [(''1_A'', ''A'', ?a), (''2_B'', ''B'', ?b)])"
    by (simp add: reader_defs example_defs)
  have h1: "macsima example_keys None True [?a, ?b] = Inr ?out"
    by (simp add: reader_defs example_defs)
  from physical_size_uniform[OF s1, of True ?out] h1
  have "\<exists>p. list_all (\<lambda>x. physical_size_of (snd (snd x)) = Inr p)
               [(''1_A'', ''A'', ?a), (''2_B'', ''B'', ?b)]
            \<and> transformation ?out = (if True then Scale [p, p] [''x'', ''y''] else Identity)"
    by blast
  have s2: "macsima_select example_keys None [?c, ?d]
              = Inr (?naming, [(''1_A'', ''A'', ?c), (''2_B'', ''B'', ?d)])"
    by (simp add: reader_defs example_defs)
  have d: "(''1_A'', ''A'', ?c) \<in> set [(''1_A'', ''A'', ?c), (''2_B'', ''B'', ?d)]
      \<and> (''2_B'', ''B'', ?d) \<in> set [(''1_A'', ''A'', ?c), (''2_B'', ''B'', ?d)]
      \<and> physical_size_of (snd (snd (''1_A'', ''A'', ?c)))
          \<noteq> physical_size_of (snd (snd (''2_B'', ''B'', ?d)))"
    by (simp add: physical_size_of_def parse_physical_size_def example_defs)
  have a: "list_all (\<lambda>x. \<exists>p. physical_size_of (snd (snd x)) = Inr p)
             [(''1_A'', ''A'', ?c), (''2_B'', ''B'', ?d)]"
    by (simp add: physical_size_of_def parse_physical_size_def example_defs)
  from physical_size_uniform[OF s2, of True _ "(''1_A'', ''A'', ?c)" "(''2_B'', ''B'', ?d)"] d a
  have "macsima example_keys None True [?c, ?d] = Inl AssertionError_physical_size"
    by blast
  with h1 show ?thesis by blast
qed

text \<open>
  The claim as stated compares all the images of the invocation. A file of channel A
  with 1 micrometer and a file of channel B with 2 micrometers, read with the channel
  list \<open>[A]\<close>: the sizes differ and the reader returns, since line 83 drops the second
  file before line 92 looks at a size.
\<close>

theorem physical_size_counterexample:
  "physical_size_of (example_image ''1'' ''A'' None (example_pixels 1 MICROMETER) ''TCZYX'')
     = Inr 1
   \<and> physical_size_of (example_image ''2'' ''B'' None (example_pixels 2 MICROMETER) ''TCZYX'')
     = Inr 2
   \<and> macsima example_keys (Some [''A'']) True
     [example_image ''1'' ''A'' None (example_pixels 1 MICROMETER) ''TCZYX'',
      example_image ''2'' ''B'' None (example_pixels 2 MICROMETER) ''TCZYX'']
     = Inr \<lparr>image_name = ''Exp__1'', array_shape = [1, 4, 4],
            dims = [''c'', ''y'', ''x''], c_coords = [''1_A''],
            to_coordinate_system = ''global'',
            transformation = Scale [1, 1] [''x'', ''y'']\<rparr>"
  by (simp add: reader_defs example_defs)

lemma macsima_assemble_dims:
  assumes "check_physical_sizes (map (\<lambda>x. snd (snd x)) (x0 # rest)) = Inr p"
    and "dims_order (snd (snd x0)) \<noteq> ''TCZYX''"
  shows "macsima_assemble transformations (naming, x0 # rest) = Inl AssertionError_dims"
proof -
  have third: "(\<lambda>(elem1, elem2, elem3). elem3) = (\<lambda>x :: triple. snd (snd x))"
    by auto
  show ?thesis
    using assms unfolding macsima_assemble_def third by (simp add: Let_def)
qed

lemma stack_Inr:
  assumes "stack (a # rest) = Inr s"
  shows "s = Suc (length rest) # a \<and> list_all (\<lambda>b. b = a) rest"
  using assms by (auto simp: stack_def split: if_splits)

text \<open>
  Claim C7, as the code has it. The dimension order of the first image, after the sort
  and the channel subsetting, is checked to be \<open>TCZYX\<close> (line 96): when it is not, the
  reader fails (with the assertion of line 96 once lines 92 to 95 have passed). When
  the reader returns, that order is \<open>TCZYX\<close>, every image squeezes to the same plane of
  two dimensions, and the array stacks one plane per image.
\<close>

theorem dims_order_of_first:
  assumes "macsima_select vx c_subset imgs = Inr (naming, x0 # rest)"
  shows "(macsima vx c_subset transformations imgs = Inr out \<longrightarrow>
            dims_order (snd (snd x0)) = ''TCZYX''
          \<and> array_shape out = Suc (length rest) # squeeze (data_shape (snd (snd x0)))
          \<and> length (squeeze (data_shape (snd (snd x0)))) = 2
          \<and> list_all (\<lambda>x. squeeze (data_shape (snd (snd x)))
                            = squeeze (data_shape (snd (snd x0)))) rest)
       \<and> (dims_order (snd (snd x0)) \<noteq> ''TCZYX'' \<longrightarrow>
            (\<exists>e. macsima vx c_subset transformations imgs = Inl e)
          \<and> ((\<exists>p. check_physical_sizes (map (\<lambda>x. snd (snd x)) (x0 # rest)) = Inr p) \<longrightarrow>
               macsima vx c_subset transformations imgs = Inl AssertionError_dims))"
proof -
  have m: "macsima vx c_subset transformations imgs
             = macsima_assemble transformations (naming, x0 # rest)"
    using assms by (simp add: macsima_def)
  have 1: "dims_order (snd (snd x0)) = ''TCZYX''
          \<and> array_shape out = Suc (length rest) # squeeze (data_shape (snd (snd x0)))
          \<and> length (squeeze (data_shape (snd (snd x0)))) = 2
          \<and> list_all (\<lambda>x. squeeze (data_shape (snd (snd x)))
                            = squeeze (data_shape (snd (snd x0)))) rest"
    if "macsima vx c_subset transformations imgs = Inr out"
  proof -
    from that m have "macsima_assemble transformations (naming, x0 # rest) = Inr out"
      by simp
    from macsima_assemble_Inr[OF this]
    have d: "dims_order (snd (snd x0)) = ''TCZYX''"
      and s: "stack (map (\<lambda>x. squeeze (data_shape (snd (snd x)))) (x0 # rest))
                = Inr (array_shape out)"
      and l: "length (array_shape out) = 3"
      by auto
    from stack_Inr[OF s[unfolded list.map]]
    have a: "array_shape out = Suc (length rest) # squeeze (data_shape (snd (snd x0)))"
      and e: "list_all (\<lambda>b. b = squeeze (data_shape (snd (snd x0))))
                (map (\<lambda>x. squeeze (data_shape (snd (snd x)))) rest)"
      by simp_all
    from a l have "length (squeeze (data_shape (snd (snd x0)))) = 2"
      by simp
    moreover from e have "list_all (\<lambda>x. squeeze (data_shape (snd (snd x)))
                            = squeeze (data_shape (snd (snd x0)))) rest"
      by (simp add: list_all_iff)
    ultimately show ?thesis using d a by simp
  qed
  have 2: "\<exists>e. macsima vx c_subset transformations imgs = Inl e"
    if "dims_order (snd (snd x0)) \<noteq> ''TCZYX''"
  proof (cases "macsima vx c_subset transformations imgs")
    case (Inl e)
    then show ?thesis by simp
  next
    case (Inr out')
    with m have "macsima_assemble transformations (naming, x0 # rest) = Inr out'"
      by simp
    from macsima_assemble_Inr[OF this] that show ?thesis
      by auto
  qed
  have 3: "macsima vx c_subset transformations imgs = Inl AssertionError_dims"
    if "dims_order (snd (snd x0)) \<noteq> ''TCZYX''"
      "\<exists>p. check_physical_sizes (map (\<lambda>x. snd (snd x)) (x0 # rest)) = Inr p"
  proof -
    from that(2) obtain p where
      "check_physical_sizes (map (\<lambda>x. snd (snd x)) (x0 # rest)) = Inr p"
      by blast
    from macsima_assemble_dims[OF this that(1)] m show ?thesis
      by simp
  qed
  from 1 2 3 show ?thesis by blast
qed

text \<open>
  Two files in the order \<open>TCZYX\<close> are read; when the file of the lowest cycle has the
  order \<open>TCZYXS\<close>, line 96 fails.
\<close>

theorem dims_order_of_first_witness:
  "macsima example_keys None False
     [example_image ''1'' ''A'' None (example_pixels 1 MICROMETER) ''TCZYX'',
      example_image ''2'' ''B'' None (example_pixels 1 MICROMETER) ''TCZYX'']
     = Inr \<lparr>image_name = ''Exp__1'', array_shape = [2, 4, 4],
            dims = [''c'', ''y'', ''x''], c_coords = [''1_A'', ''2_B''],
            to_coordinate_system = ''global'', transformation = Identity\<rparr>
   \<and> macsima example_keys None False
     [example_image ''2'' ''B'' None (example_pixels 1 MICROMETER) ''TCZYX'',
      example_image ''1'' ''A'' None (example_pixels 1 MICROMETER) ''TCZYXS'']
     = Inl AssertionError_dims"
proof -
  let ?a = "example_image ''1'' ''A'' None (example_pixels 1 MICROMETER) ''TCZYX''"
  let ?b = "example_image ''2'' ''B'' None (example_pixels 1 MICROMETER) ''TCZYX''"
  let ?c = "example_image ''1'' ''A'' None (example_pixels 1 MICROMETER) ''TCZYXS''"
  let ?naming = "(''global'', Some ''Exp #1'')"
  let ?out = "\<lparr>image_name = ''Exp__1'', array_shape = [2, 4, 4],
            dims = [''c'', ''y'', ''x''], c_coords = [''1_A'', ''2_B''],
            to_coordinate_system = ''global'', transformation = Identity\<rparr>"
  have s1: "macsima_select example_keys None [?a, ?b]
              = Inr (?naming, [(''1_A'', ''A'', ?a), (''2_B'', ''B'', ?b)])"
    by (simp add: reader_defs example_defs)
  have h1: "macsima example_keys None False [?a, ?b] = Inr ?out"
    by (simp add: reader_defs example_defs)
  from dims_order_of_first[OF s1, of False ?out] h1
  have "dims_order (snd (snd (''1_A'', ''A'', ?a))) = ''TCZYX''"
    by blast
  have s2: "macsima_select example_keys None [?b, ?c]
              = Inr (?naming, [(''1_A'', ''A'', ?c), (''2_B'', ''B'', ?b)])"
    by (simp add: reader_defs example_defs)
  have d: "dims_order (snd (snd (''1_A'', ''A'', ?c))) \<noteq> ''TCZYX''"
    by (simp add: example_defs)
  have p: "\<exists>p. check_physical_sizes
             (map (\<lambda>x. snd (snd x)) [(''1_A'', ''A'', ?c), (''2_B'', ''B'', ?b)]) = Inr p"
    by (simp add: reader_defs example_defs)
  from dims_order_of_first[OF s2, of False] d p
  have "macsima example_keys None False [?b, ?c] = Inl AssertionError_dims"
    by blast
  with h1 show ?thesis by blast
qed

text \<open>
  The claim as stated checks every image. Here the file of cycle 2 has the order
  \<open>XYZCT\<close> and the reader returns: line 96 reads the order of the first image only.
\<close>

theorem dims_order_counterexample:
  "dims_order (example_image ''2'' ''B'' None (example_pixels 1 MICROMETER) ''XYZCT'')
     \<noteq> ''TCZYX''
   \<and> macsima example_keys None False
     [example_image ''1'' ''A'' None (example_pixels 1 MICROMETER) ''TCZYX'',
      example_image ''2'' ''B'' None (example_pixels 1 MICROMETER) ''XYZCT'']
     = Inr \<lparr>image_name = ''Exp__1'', array_shape = [2, 4, 4],
            dims = [''c'', ''y'', ''x''], c_coords = [''1_A'', ''2_B''],
            to_coordinate_system = ''global'', transformation = Identity\<rparr>"
  by (simp add: reader_defs example_defs)

text \<open>
  Claim C2 on the code. Three files: none, R1 and R2 as region of interest. With the
  file without a region of interest first, line 68 skips the comparison and the reader
  returns, under the coordinate system \<open>global\<close>; with the file of R1 first, line 69
  fails. The same three files are read or refused by the order of the directory
  listing.
\<close>

theorem roi_mismatch_by_order:
  "macsima example_keys None False
     [example_image ''1'' ''A'' None (example_pixels 1 MICROMETER) ''TCZYX'',
      example_image ''2'' ''B'' (Some ''R1'') (example_pixels 1 MICROMETER) ''TCZYX'',
      example_image ''3'' ''C'' (Some ''R2'') (example_pixels 1 MICROMETER) ''TCZYX'']
     = Inr \<lparr>image_name = ''Exp__1'', array_shape = [3, 4, 4],
            dims = [''c'', ''y'', ''x''], c_coords = [''1_A'', ''2_B_R1'', ''3_C_R2''],
            to_coordinate_system = ''global'', transformation = Identity\<rparr>
   \<and> macsima example_keys None False
     [example_image ''2'' ''B'' (Some ''R1'') (example_pixels 1 MICROMETER) ''TCZYX'',
      example_image ''1'' ''A'' None (example_pixels 1 MICROMETER) ''TCZYX'',
      example_image ''3'' ''C'' (Some ''R2'') (example_pixels 1 MICROMETER) ''TCZYX'']
     = Inl AssertionError_roi"
  by (simp add: reader_defs example_defs)

text \<open>
  Claim C3 on the code. A channel list that keeps no file: the comprehension of line 83
  is empty, the assignment of its unzipping to three names raises, and line 89 is not
  reached.
\<close>

theorem c_subset_keeps_nothing:
  "macsima example_keys (Some [''CD8'']) False
     [example_image ''1'' ''DAPI'' None (example_pixels 1 MICROMETER) ''TCZYX'',
      example_image ''2'' ''CD3'' None (example_pixels 1 MICROMETER) ''TCZYX'']
     = Inl ValueError_unpack"
  by (simp add: reader_defs example_defs)

text \<open>
  When the files agree on the region of interest (all have the same id, or none has
  one) and the reader returns, the image name is the cleaned description of the first
  experiment of the first file, followed by \<open>_\<close> and the id when there is one.
\<close>

lemma image_name_when_roi_agrees:
  assumes "macsima vx c_subset transformations imgs = Inr out"
    and "\<forall>img\<in>set imgs. \<exists>md. get_metadata vx img = Inr md \<and> md_roi_id md = roi"
  shows "\<exists>img0 rest ex0 exs.
           imgs = img0 # rest \<and> experiments (ome_metadata img0) = ex0 # exs
         \<and> image_name out =
             clean_string (format_str (description ex0)
               @ (case roi of None \<Rightarrow> [] | Some roi_id \<Rightarrow> ''_'' @ roi_id))
         \<and> to_coordinate_system out =
             (case roi of None \<Rightarrow> ''global'' | Some roi_id \<Rightarrow> ''global_'' @ roi_id)"
proof -
  from image_name_cleaned[OF assms(1)] obtain img0 rest and ex0 :: Experiment and exs md0 where
    imgs: "imgs = img0 # rest" and ex: "experiments (ome_metadata img0) = ex0 # exs"
    and md0: "get_metadata vx img0 = Inr md0"
    and name: "image_name out =
             clean_string (format_str (description ex0)
               @ (case md_roi_id md0 of None \<Rightarrow> [] | Some roi_id \<Rightarrow> ''_'' @ roi_id))"
    and cs: "to_coordinate_system out =
             (case md_roi_id md0 of None \<Rightarrow> ''global'' | Some roi_id \<Rightarrow> ''global_'' @ roi_id)"
    by blast
  from assms(2) imgs md0 have "md_roi_id md0 = roi"
    by auto
  with imgs ex name cs show ?thesis
    by blast
qed

text \<open>
  Claim C9 on the code. Three files with the regions of interest none, R1 and R1, the
  file without one first: a region-of-interest id was found, and the image name is the
  cleaned description alone, \<open>Exp__1\<close>, under the coordinate system \<open>global\<close>, since
  lines 68 to 74 read the id of the first file only. When the three files have R1, the
  name is \<open>Exp__1_R1\<close>. The cleaning itself, and the labels and the coordinate system
  that stay as they are, are as the claim says (\<open>image_name_cleaned\<close>).
\<close>

theorem roi_suffix_by_order:
  "macsima example_keys None False
     [example_image ''1'' ''A'' None (example_pixels 1 MICROMETER) ''TCZYX'',
      example_image ''2'' ''B'' (Some ''R1'') (example_pixels 1 MICROMETER) ''TCZYX'',
      example_image ''3'' ''C'' (Some ''R1'') (example_pixels 1 MICROMETER) ''TCZYX'']
     = Inr \<lparr>image_name = ''Exp__1'', array_shape = [3, 4, 4],
            dims = [''c'', ''y'', ''x''], c_coords = [''1_A'', ''2_B_R1'', ''3_C_R1''],
            to_coordinate_system = ''global'', transformation = Identity\<rparr>
   \<and> macsima example_keys None False
     [example_image ''1'' ''A'' (Some ''R1'') (example_pixels 1 MICROMETER) ''TCZYX'',
      example_image ''2'' ''B'' (Some ''R1'') (example_pixels 1 MICROMETER) ''TCZYX'',
      example_image ''3'' ''C'' (Some ''R1'') (example_pixels 1 MICROMETER) ''TCZYX'']
     = Inr \<lparr>image_name = ''Exp__1_R1'', array_shape = [3, 4, 4],
            dims = [''c'', ''y'', ''x''], c_coords = [''1_A_R1'', ''2_B_R1'', ''3_C_R1''],
            to_coordinate_system = ''global_R1'', transformation = Identity\<rparr>"
  by (simp add: reader_defs example_defs)

section \<open>Further facts on the two defects\<close>

lemma collect_Inl_cases:
  "collect f xs = Inl e \<Longrightarrow> \<exists>x\<in>set xs. f x = Inl e"
  by (induction xs) (auto split: sum.splits)

lemma get_structured_annotations_Inl:
  "get_structured_annotations img k = Inl e \<Longrightarrow> e = AssertionError_annotations"
  by (auto simp: get_structured_annotations_def split: list.splits if_splits)

lemma get_metadata_Inl:
  assumes "get_metadata vx img = Inl e"
  shows "e \<noteq> ValueError_empty_after_subsetting"
proof -
  have "get_cycle vx img = Inl e' \<Longrightarrow> e' \<noteq> ValueError_empty_after_subsetting" for e'
    by (auto simp: get_cycle_def split: sum.splits option.splits
        dest: get_structured_annotations_Inl)
  moreover have "get_channel_name img = Inl e' \<Longrightarrow> e' \<noteq> ValueError_empty_after_subsetting" for e'
    by (auto simp: get_channel_name_def split: option.splits list.splits if_splits)
  moreover have "get_reagents img = Inl e' \<Longrightarrow> e' \<noteq> ValueError_empty_after_subsetting" for e'
    by (auto simp: get_reagents_def split: option.splits list.splits)
  moreover have "get_roi_id vx img = Inl e' \<Longrightarrow> e' \<noteq> ValueError_empty_after_subsetting" for e'
    by (auto simp: get_roi_id_def split: sum.splits if_splits
        dest: get_structured_annotations_Inl)
  moreover have "get_structured_annotations img (SCANTYPE vx) = Inl e'
      \<Longrightarrow> e' \<noteq> ValueError_empty_after_subsetting" for e'
    by (auto dest: get_structured_annotations_Inl)
  ultimately show ?thesis
    using assms unfolding get_metadata_def by (auto split: sum.splits)
qed

lemma sort_by_cycle_error:
  "sort_by_cycle combined = Inl e \<Longrightarrow> e = AttributeError_group \<or> e = ValueError_unpack"
proof -
  assume a: "sort_by_cycle combined = Inl e"
  show ?thesis
  proof (cases "collect cycle_key combined")
    case (Inl e')
    from collect_Inl_cases[OF this] have "e' = AttributeError_group"
      by (auto simp: cycle_key_def split: option.splits)
    with a Inl show ?thesis by (simp add: sort_by_cycle_def)
  next
    case (Inr keys)
    with a show ?thesis by (auto simp: sort_by_cycle_def split: list.splits)
  qed
qed

lemma subset_channels_error:
  "subset_channels c_subset s = Inl e \<Longrightarrow> s \<noteq> [] \<Longrightarrow> e = ValueError_unpack"
  by (auto simp: subset_channels_def split: option.splits list.splits sum.splits if_splits)

lemma macsima_select_error:
  assumes "macsima_select vx c_subset imgs = Inl e"
  shows "e \<noteq> ValueError_empty_after_subsetting"
proof (cases imgs)
  case Nil
  with assms show ?thesis by (simp add: macsima_select_def)
next
  case (Cons img0 rest)
  show ?thesis
  proof (cases "experiments (ome_metadata img0)")
    case Nil
    with assms Cons show ?thesis by (auto simp: macsima_select_def)
  next
    case ex: (Cons ex0 exs)
    show ?thesis
    proof (cases "collect (get_metadata vx) imgs")
      case (Inl e')
      with assms Cons ex have "e = e'" by (simp add: macsima_select_def)
      with collect_Inl_cases[OF Inl] get_metadata_Inl show ?thesis by blast
    next
      case mds: (Inr mds)
      show ?thesis
      proof (cases "roi_names (description ex0) (map md_roi_id mds)")
        case (Inl e')
        with assms Cons ex mds have "e = e'" by (simp add: macsima_select_def)
        with Inl show ?thesis
          by (auto simp: roi_names_def split: list.splits option.splits if_splits)
      next
        case naming: (Inr naming)
        let ?combined = "zip (map derived_name mds) (zip (map md_channel_name mds) imgs)"
        show ?thesis
        proof (cases "sort_by_cycle ?combined")
          case (Inl e')
          with assms Cons ex mds naming have "e = e'" by (simp add: macsima_select_def)
          with sort_by_cycle_error[OF Inl] show ?thesis by auto
        next
          case (Inr s)
          then have "s \<noteq> []"
            by (auto simp: sort_by_cycle_def split: sum.splits list.splits)
          moreover from assms Cons ex mds naming Inr have "subset_channels c_subset s = Inl e"
            by (simp add: macsima_select_def split: sum.splits)
          ultimately show ?thesis
            using subset_channels_error by blast
        qed
      qed
    qed
  qed
qed

lemma check_physical_sizes_error:
  assumes "check_physical_sizes imgs = Inl e"
  shows "e \<noteq> ValueError_empty_after_subsetting"
proof -
  have p: "physical_size_of i = Inl e' \<Longrightarrow> e' \<noteq> ValueError_empty_after_subsetting" for i e'
    by (auto simp: physical_size_of_def parse_physical_size_def
        split: list.splits if_splits option.splits)
  then have s: "same_physical_size q i = Inl e' \<Longrightarrow> e' \<noteq> ValueError_empty_after_subsetting"
    for q i e'
    by (auto simp: same_physical_size_def split: sum.splits if_splits)
  show ?thesis
  proof (cases imgs)
    case Nil
    with assms show ?thesis by (simp add: check_physical_sizes_def)
  next
    case (Cons img0 rest)
    show ?thesis
    proof (cases "physical_size_of img0")
      case (Inl e')
      with assms Cons p show ?thesis by (auto simp: check_physical_sizes_def)
    next
      case (Inr q)
      with assms Cons have "collect (same_physical_size q) imgs = Inl e"
        by (simp add: check_physical_sizes_def split: sum.splits)
      from collect_Inl_cases[OF this] s show ?thesis by blast
    qed
  qed
qed

lemma macsima_assemble_error:
  assumes "macsima_assemble transformations st = Inl e"
  shows "e \<noteq> ValueError_empty_after_subsetting"
proof (cases "check_physical_sizes (map (\<lambda>(elem1, elem2, elem3). elem3) (snd st))")
  case (Inl e')
  with assms have "e = e'" by (simp add: macsima_assemble_def Let_def)
  with check_physical_sizes_error[OF Inl] show ?thesis by simp
next
  case (Inr p)
  with assms show ?thesis
    by (auto simp: macsima_assemble_def Let_def stack_def
        split: list.splits if_splits sum.splits option.splits)
qed

text \<open>The error of line 89 is raised on no input.\<close>

lemma line_89_not_reached:
  "macsima vx c_subset transformations imgs \<noteq> Inl ValueError_empty_after_subsetting"
proof (cases "macsima_select vx c_subset imgs")
  case (Inl e)
  with macsima_select_error[OF Inl] show ?thesis by (simp add: macsima_def)
next
  case (Inr st)
  then show ?thesis
    using macsima_assemble_error[of transformations st] by (auto simp: macsima_def)
qed

lemma list_all2_member:
  "list_all2 P xs ys \<Longrightarrow> x \<in> set xs \<Longrightarrow> \<exists>y\<in>set ys. P x y"
  by (induction rule: list_all2_induct) auto

text \<open>
  What line 69 does enforce: when the first file has a region of interest and the reader
  returns, every file has that region of interest.
\<close>

lemma roi_compared_with_first:
  assumes "macsima vx c_subset transformations (img0 # rest) = Inr out"
    and "get_metadata vx img0 = Inr md0" and "md_roi_id md0 = Some r"
    and "img \<in> set (img0 # rest)"
  shows "\<exists>md. get_metadata vx img = Inr md \<and> md_roi_id md = Some r"
proof -
  from assms(1) obtain naming selected where
    sel: "macsima_select vx c_subset (img0 # rest) = Inr (naming, selected)"
    by (auto simp: macsima_Inr)
  from macsima_select_Inr[OF sel] obtain ex0 :: Experiment and mds where
    mds: "collect (get_metadata vx) (img0 # rest) = Inr mds"
    and roi: "roi_names (description ex0) (map md_roi_id mds) = Inr naming"
    by blast
  from collect_hd[OF mds] assms(2) obtain mds' where mds': "mds = md0 # mds'"
    by auto
  from roi_names_Inr[OF roi[unfolded mds' list.map]] assms(3)
  have all: "list_all (\<lambda>x. x = Some r) (map md_roi_id mds)"
    unfolding mds' by simp
  from mds have "list_all2 (\<lambda>i md. get_metadata vx i = Inr md) (img0 # rest) mds"
    by (simp only: collect_Inr_iff)
  from list_all2_member[OF this assms(4)]
  obtain md where "md \<in> set mds" "get_metadata vx img = Inr md"
    by blast
  with all show ?thesis
    by (auto simp: list_all_iff)
qed

end
